theory Spec2Isabelle
  imports Main "HOL-Library.Sublist"
begin

section \<open>Python values used by \<open>kaleidoscope/interface.py\<close>\<close>

text \<open>
  Text (\<open>str\<close>) and byte strings (\<open>bytes\<close>) are both lists of characters. A character
  stands for a code point below 256; the code builds all of its own text from ASCII
  literals and the caller's prefix.

  The exceptions that the module raises, or that the Python operations it uses raise.
  In Python 3 \<open>EnvironmentError\<close> is another name of \<open>OSError\<close>.
\<close>

datatype error =
    AssertionError string
  | OSError string
  | KeyError string
  | ValueError string
  | TypeError string
  | AttributeError string
  | IndexError string
  | UnicodeDecodeError
  | External string

abbreviation EnvironmentError :: "string \<Rightarrow> error" where
  "EnvironmentError \<equiv> OSError"

text \<open>\<open>str.isspace\<close> on the code points below 256.\<close>

definition isspace :: "char \<Rightarrow> bool" where
  "isspace c = (of_char c \<in> {9, 10, 11, 12, 13, 28, 29, 30, 31, 32, 133, 160 :: nat})"

text \<open>\<open>s.strip()\<close>: whitespace removed at both ends.\<close>

definition strip :: "string \<Rightarrow> string" where
  "strip s = rev (dropWhile isspace (rev (dropWhile isspace s)))"

text \<open>\<open>s.startswith(p)\<close> and \<open>sub in s\<close>.\<close>

fun startswith :: "string \<Rightarrow> string \<Rightarrow> bool" where
  "startswith s [] = True"
| "startswith [] (p # ps) = False"
| "startswith (c # s) (p # ps) = (c = p \<and> startswith s ps)"

fun str_in :: "string \<Rightarrow> string \<Rightarrow> bool" where
  "str_in sub [] = (sub = [])"
| "str_in sub (c # s) = (startswith (c # s) sub \<or> str_in sub s)"

text \<open>
  \<open>s.split(sep)\<close> for a separator of one character: the pieces between the
  separators, always at least one piece.
\<close>

fun split_chr :: "char \<Rightarrow> string \<Rightarrow> string list" where
  "split_chr sep [] = [[]]"
| "split_chr sep (c # s) =
     (if c = sep then [] # split_chr sep s
      else (case split_chr sep s of
              [] \<Rightarrow> [[c]]
            | piece # pieces \<Rightarrow> (c # piece) # pieces))"

text \<open>
  \<open>s.splitlines()\<close>: lines end at \<open>\n\<close>, \<open>\r\<close>, \<open>\r\n\<close>, \<open>\v\<close>, \<open>\f\<close>,
  \<open>\x1c\<close>, \<open>\x1d\<close>, \<open>\x1e\<close> and \<open>\x85\<close>; the line ends are dropped and a final
  line end opens no empty line. \<open>splitlines_from cur s\<close> carries the line read so far.
\<close>

definition is_linebreak :: "char \<Rightarrow> bool" where
  "is_linebreak c = (of_char c \<in> {10, 11, 12, 13, 28, 29, 30, 133 :: nat})"

fun splitlines_from :: "string \<Rightarrow> string \<Rightarrow> string list" where
  "splitlines_from cur [] = (if cur = [] then [] else [cur])"
| "splitlines_from cur (c # s) =
     (if is_linebreak c
      then cur # (case s of
                    d # s' \<Rightarrow> if c = CHR 0x0D \<and> d = CHR 0x0A then splitlines_from [] s'
                              else splitlines_from [] s
                  | [] \<Rightarrow> splitlines_from [] s)
      else splitlines_from (cur @ [c]) s)"

definition splitlines :: "string \<Rightarrow> string list" where
  "splitlines s = splitlines_from [] s"

text \<open>
  \<open>int(s)\<close> on text: whitespace is dropped at both ends, then an optional sign, then
  decimal digits, where one underscore may stand between two digits. Anything else is a
  \<open>ValueError\<close>, here \<open>None\<close>. The whitespace of \<open>int\<close> is narrower than that of
  \<open>strip\<close>: the separators \<open>\x1c\<close> to \<open>\x1f\<close> are not part of it.
  (Python 3.11 and later also refuse a numeral of more than 4300 digits, unless that
  limit is changed; the limit is not part of this model.)
\<close>

definition int_space :: "char \<Rightarrow> bool" where
  "int_space c = (of_char c \<in> {9, 10, 11, 12, 13, 32, 133, 160 :: nat})"

definition is_digit :: "char \<Rightarrow> bool" where
  "is_digit c = (48 \<le> (of_char c :: nat) \<and> (of_char c :: nat) \<le> 57)"

definition digit_val :: "char \<Rightarrow> int" where
  "digit_val c = int (of_char c) - 48"

text \<open>\<open>digits acc after_digit s\<close>: \<open>after_digit\<close> says that the last character read was a digit.\<close>

fun digits :: "int \<Rightarrow> bool \<Rightarrow> string \<Rightarrow> int option" where
  "digits acc after_digit [] = (if after_digit then Some acc else None)"
| "digits acc after_digit (c # s) =
     (if is_digit c then digits (10 * acc + digit_val c) True s
      else if c = CHR ''_'' \<and> after_digit then digits acc False s
      else None)"

definition py_int :: "string \<Rightarrow> int option" where
  "py_int s =
     (case rev (dropWhile int_space (rev (dropWhile int_space s))) of
        [] \<Rightarrow> None
      | c # r \<Rightarrow>
          if c = CHR ''-'' then map_option uminus (digits 0 False r)
          else if c = CHR ''+'' then digits 0 False r
          else digits 0 False (c # r))"

text \<open>\<open>str(n)\<close> and \<open>"{}".format(n)\<close> for an integer: its decimal numeral.\<close>

definition digit_chr :: "nat \<Rightarrow> char" where
  "digit_chr d = ''0123456789'' ! d"

fun str_nat :: "nat \<Rightarrow> string" where
  "str_nat n = (if n < 10 then [digit_chr n] else str_nat (n div 10) @ [digit_chr (n mod 10)])"

declare str_nat.simps [simp del]

definition str_int :: "int \<Rightarrow> string" where
  "str_int i = (if i < 0 then CHR ''-'' # str_nat (nat (- i)) else str_nat (nat i))"

text \<open>Truth values of the objects the code tests: \<open>None\<close>, empty bytes and \<open>0\<close> are false.\<close>

definition truthy_str :: "string option \<Rightarrow> bool" where
  "truthy_str x = (case x of None \<Rightarrow> False | Some s \<Rightarrow> s \<noteq> [])"

definition truthy_int :: "int option \<Rightarrow> bool" where
  "truthy_int x = (case x of None \<Rightarrow> False | Some i \<Rightarrow> i \<noteq> 0)"

text \<open>\<open>s.split()\<close>: the pieces between runs of whitespace, none of them empty.\<close>

fun split_ws_from :: "string \<Rightarrow> string \<Rightarrow> string list" where
  "split_ws_from cur [] = (if cur = [] then [] else [cur])"
| "split_ws_from cur (c # s) =
     (if isspace c then (if cur = [] then [] else [cur]) @ split_ws_from [] s
      else split_ws_from (cur @ [c]) s)"

definition split_ws :: "string \<Rightarrow> string list" where
  "split_ws s = split_ws_from [] s"

abbreviation CR :: char where "CR \<equiv> CHR 0x0D"
abbreviation LF :: char where "LF \<equiv> CHR 0x0A"
abbreviation DQ :: char where "DQ \<equiv> CHR 0x22"
abbreviation SQ :: char where "SQ \<equiv> CHR 0x27"

section \<open>The outside world\<close>

text \<open>
  The module drives external tools: shell commands through \<open>subprocess\<close>, the object
  store through \<open>boto3\<close>, the manifest writers of \<open>kaleidoscope.yaml_creation\<close>. None of
  them is code of this module, so each is a capability of a platform, over a state of the
  world \<open>'w\<close> that every call may change.
\<close>

datatype yaml_call =
    create_secret_yaml
  | create_secret_store_yaml
  | create_redis_service_yaml
  | create_redis_master_yaml
  | create_queue_maker_yaml string
  | create_poll_yaml
  | create_job_yaml string string int

record kwargs =
  Bucket :: string
  ContinuationToken :: "string option"

record s3_pointer =
  Key :: string

text \<open>A listing response is a dictionary; either key may be missing.\<close>

record response =
  Contents :: "s3_pointer list option"
  NextContinuationToken :: "string option"

record 'w platform =
  environ :: "string \<Rightarrow> string option"
  cpu_count :: "nat option"
  decode :: "string \<Rightarrow> string option"
  process :: "string \<Rightarrow> 'w \<Rightarrow> (string \<times> string) \<times> 'w"
  subprocess_run :: "string list \<Rightarrow> 'w \<Rightarrow> (error + unit) \<times> 'w"
  buckets_all :: "'w \<Rightarrow> (error + string list) \<times> 'w"
  list_objects_v2 :: "kwargs \<Rightarrow> 'w \<Rightarrow> (error + response) \<times> 'w"
  yaml_creation :: "yaml_call \<Rightarrow> 'w \<Rightarrow> (error + unit) \<times> 'w"

text \<open>
  \<^item> \<open>environ\<close> is \<open>os.environ\<close>, \<open>cpu_count\<close> is \<open>os.cpu_count()\<close>;
  \<^item> \<open>decode\<close> is \<open>bytes.decode()\<close> (UTF-8), \<open>None\<close> where it raises;
  \<^item> \<open>process command\<close> runs a shell command to its end and gives what it wrote to
    its standard output and to its standard error;
  \<^item> \<open>subprocess_run argv\<close> is \<open>subprocess.run(argv)\<close>, whose result the code drops;
  \<^item> \<open>buckets_all\<close> gives the names of the buckets in \<open>s3.buckets.all()\<close>;
  \<^item> \<open>list_objects_v2\<close> is one paginated listing call;
  \<^item> \<open>yaml_creation\<close> is a call of a function of \<open>kaleidoscope.yaml_creation\<close>.
\<close>

text \<open>
  What a run does, in order: what it writes to \<open>sys.stdout\<close> and every call it makes
  outside the module (with the answer, where the code looks at it).
\<close>

datatype event =
    Stdout string
  | Shell string string string
  | Run "string list"
  | BucketsAll "error + string list"
  | Environ string
  | Yaml yaml_call
  | ListObjects kwargs
  | PoolMap "s3_pointer list option"
  | Sleep int

text \<open>
  A method is a function of the world that gives a result or an exception, the world
  after it, and the events of the run.
\<close>

type_synonym ('w, 'a) prog = "'w \<Rightarrow> (error + 'a) \<times> 'w \<times> event list"

definition ret :: "'a \<Rightarrow> ('w, 'a) prog" where
  "ret x = (\<lambda>w. (Inr x, w, []))"

definition raise :: "error \<Rightarrow> ('w, 'a) prog" where
  "raise e = (\<lambda>w. (Inl e, w, []))"

definition emit :: "event \<Rightarrow> ('w, unit) prog" where
  "emit ev = (\<lambda>w. (Inr (), w, [ev]))"

definition bind :: "('w, 'a) prog \<Rightarrow> ('a \<Rightarrow> ('w, 'b) prog) \<Rightarrow> ('w, 'b) prog" where
  "bind m f = (\<lambda>w.
     case m w of
       (Inl e, w1, l1) \<Rightarrow> (Inl e, w1, l1)
     | (Inr x, w1, l1) \<Rightarrow> (case f x w1 of (r, w2, l2) \<Rightarrow> (r, w2, l1 @ l2)))"

definition seq :: "('w, unit) prog \<Rightarrow> ('w, 'b) prog \<Rightarrow> ('w, 'b) prog" where
  "seq m n = bind m (\<lambda>_. n)"

text \<open>An external call: the capability runs on the world, and the event is recorded.\<close>

definition call :: "((error + 'a) \<Rightarrow> event) \<Rightarrow> ('w \<Rightarrow> (error + 'a) \<times> 'w) \<Rightarrow> ('w, 'a) prog" where
  "call ev cap = (\<lambda>w. case cap w of (r, w1) \<Rightarrow> (r, w1, [ev r]))"

definition result :: "(error + 'a) \<times> 'w \<times> event list \<Rightarrow> error + 'a" where
  "result x = fst x"

definition events :: "(error + 'a) \<times> 'w \<times> event list \<Rightarrow> event list" where
  "events x = snd (snd x)"

definition world :: "(error + 'a) \<times> 'w \<times> event list \<Rightarrow> 'w" where
  "world x = fst (snd x)"

section \<open>The class \<open>Interface\<close>\<close>

record interface =
  cluster_name :: string
  kops_state_store_name :: string
  original_images_bucket :: string
  augmented_images_bucket :: string
  verbose :: bool

text \<open>\<open>self._vprint\<close>: \<open>sys.stdout.write\<close> if \<open>verbose\<close>, else nothing.\<close>

definition vprint :: "interface \<Rightarrow> string \<Rightarrow> ('w, unit) prog" where
  "vprint self s = (if verbose self then emit (Stdout s) else ret ())"

text \<open>\<open>print(s)\<close> writes the text and a newline.\<close>

definition print :: "string \<Rightarrow> ('w, unit) prog" where
  "print s = emit (Stdout (s @ [LF]))"

subsection \<open>Running a shell command\<close>

text \<open>
  \<open>subprocess.Popen(...).communicate()\<close> gives a pair \<open>(stdout_data, stderr_data)\<close>; a
  component is the data read from the pipe if that stream was opened with \<open>PIPE\<close>, and
  \<open>None\<close> otherwise (the stream then goes where the parent's stream goes).
\<close>

record popen_args =
  args :: string
  stdout_pipe :: bool
  stderr_pipe :: bool
  shell :: bool

definition communicate :: "popen_args \<Rightarrow> string \<times> string \<Rightarrow> string option \<times> string option" where
  "communicate a written =
     (if stdout_pipe a then Some (fst written) else None,
      if stderr_pipe a then Some (snd written) else None)"

definition Popen_communicate ::
  "'w platform \<Rightarrow> popen_args \<Rightarrow> ('w, string option \<times> string option) prog" where
  "Popen_communicate P a = (\<lambda>w.
     case process P (args a) w of
       (written, w1) \<Rightarrow> (Inr (communicate a written), w1, [Shell (args a) (fst written) (snd written)]))"

definition pass_command_to_shell :: "'w platform \<Rightarrow> string \<Rightarrow> ('w, string) prog" where
  "pass_command_to_shell P command =
     bind (Popen_communicate P
             \<lparr>args = command, stdout_pipe = True, stderr_pipe = False, shell = True\<rparr>)
       (\<lambda>(output, error).
          if truthy_str error then raise (OSError (case error of Some e \<Rightarrow> e | None \<Rightarrow> []))
          else (case output of
                  None \<Rightarrow> raise (AttributeError ''decode'')
                | Some out \<Rightarrow>
                    (case decode P out of
                       None \<Rightarrow> raise UnicodeDecodeError
                     | Some text \<Rightarrow> ret (strip text))))"

subsection \<open>Checks and provisioning\<close>

definition package_message_non_zero ::
  "'w platform \<Rightarrow> interface \<Rightarrow> string \<Rightarrow> string \<Rightarrow> ('w, bool) prog" where
  "package_message_non_zero P self package arguments =
     seq (vprint self (CR # package @ '': checking installation''))
       (let command = package @ arguments in
        bind (pass_command_to_shell P command) (\<lambda>output.
          ret (length output \<noteq> 0)))"

definition bucket_exists :: "'w platform \<Rightarrow> interface \<Rightarrow> string \<Rightarrow> ('w, bool) prog" where
  "bucket_exists P self bucket_name =
     seq (vprint self (CR # bucket_name @ '': Checking existence''))
       (bind (call BucketsAll (buckets_all P)) (\<lambda>names.
          ret (bucket_name \<in> set names)))"

definition create_bucket_command :: "string \<Rightarrow> string" where
  "create_bucket_command bucket_name =
     ''aws s3api create-bucket --bucket '' @ bucket_name @ '' --region us-east-1''"

definition create_bucket :: "'w platform \<Rightarrow> string \<Rightarrow> ('w, unit) prog" where
  "create_bucket P bucket_name =
     (let create = create_bucket_command bucket_name in
      call (\<lambda>_. Run (split_ws create)) (subprocess_run P (split_ws create)))"

definition apply_versioning_command :: "string \<Rightarrow> string" where
  "apply_versioning_command store =
     ''aws s3api put-bucket-versioning --bucket '' @ store
       @ '' --versioning-configuration Status=Enabled''"

definition create_cluster_state_store :: "'w platform \<Rightarrow> interface \<Rightarrow> ('w, unit) prog" where
  "create_cluster_state_store P self =
     seq (vprint self (CR # kops_state_store_name self @ '': Not found - Creating''))
    (seq (create_bucket P (kops_state_store_name self))
    (let apply_versioning = apply_versioning_command (kops_state_store_name self) in
     seq (call (\<lambda>_. Run (split_ws apply_versioning))
            (subprocess_run P (split_ws apply_versioning)))
       (vprint self (CR # kops_state_store_name self @ '': Should be created''))))"

definition create_image_buckets :: "'w platform \<Rightarrow> interface \<Rightarrow> ('w, unit) prog" where
  "create_image_buckets P self =
     bind (bucket_exists P self (original_images_bucket self)) (\<lambda>found.
     seq (if \<not> found then create_bucket P (original_images_bucket self) else ret ())
    (bind (bucket_exists P self (augmented_images_bucket self)) (\<lambda>found.
       if \<not> found then create_bucket P (augmented_images_bucket self) else ret ())))"

text \<open>\<open>os.environ[key]\<close>: a \<open>KeyError\<close> if the variable is not set.\<close>

definition os_environ :: "'w platform \<Rightarrow> string \<Rightarrow> ('w, string) prog" where
  "os_environ P key =
     seq (emit (Environ key))
       (case environ P key of None \<Rightarrow> raise (KeyError key) | Some v \<Rightarrow> ret v)"

definition export_hint :: "string \<Rightarrow> string \<Rightarrow> string" where
  "export_hint var val =
     [SQ] @ ''export '' @ var @ ''='' @ [DQ] @ val @ [DQ] @ [SQ] @ '' >> $HOME/.bash_profile''"

definition check_environmental_variables :: "'w platform \<Rightarrow> interface \<Rightarrow> ('w, unit) prog" where
  "check_environmental_variables P self =
     seq (vprint self (CR # ''Environment variables: confirming''))
       (let message = ''please run this command in Terminal and try again:'' in
        bind (os_environ P ''KOPS_CLUSTER_NAME'') (\<lambda>v.
          if v \<noteq> cluster_name self
          then raise (EnvironmentError
                 (message @ export_hint ''KOPS_CLUSTER_NAME'' (cluster_name self)))
          else
        bind (os_environ P ''KOPS_STATE_STORE'') (\<lambda>v.
          if v \<noteq> ''s3://'' @ kops_state_store_name self
          then raise (EnvironmentError
                 (message @ export_hint ''KOPS_STATE_STORE''
                    (''s3://'' @ kops_state_store_name self)))
          else vprint self (CR # ''Environment variables: confirmed''))))"

definition ready_message :: "interface \<Rightarrow> string" where
  "ready_message self = ''Your cluster '' @ cluster_name self @ '' is ready''"

definition cluster_ready :: "'w platform \<Rightarrow> interface \<Rightarrow> ('w, bool) prog" where
  "cluster_ready P self =
     (let command = ''kops validate cluster'' in
      seq (vprint self (CR # ''$: '' @ command))
        (bind (pass_command_to_shell P command) (\<lambda>output.
           let message = ready_message self in
           ret (str_in message output))))"

definition validate_cluster :: "'w platform \<Rightarrow> interface \<Rightarrow> ('w, bool) prog" where
  "validate_cluster P self = cluster_ready P self"

subsection \<open>Cluster life cycle\<close>

definition yes_arg :: "bool \<Rightarrow> string" where
  "yes_arg dry_run = (if \<not> dry_run then '' --yes'' else [])"

definition spin_up_cluster :: "'w platform \<Rightarrow> interface \<Rightarrow> bool \<Rightarrow> bool \<Rightarrow> ('w, unit) prog" where
  "spin_up_cluster P self dry_run raw_output =
     (let arg = yes_arg dry_run;
          command = ''kops update cluster --name '' @ cluster_name self @ arg in
      seq (vprint self (CR # ''$: '' @ command))
     (bind (pass_command_to_shell P command) (\<lambda>output.
      seq (if raw_output then print output else ret ())
        (vprint self (CR # ''Spinning up cluster, this may take some time (5+ minutes'')))))"

definition create_cluster ::
  "'w platform \<Rightarrow> interface \<Rightarrow> int \<Rightarrow> string \<Rightarrow> string \<Rightarrow> bool \<Rightarrow> bool \<Rightarrow> ('w, unit) prog" where
  "create_cluster P self node_count node_size region dry_run raw_output =
     (let command = ''kops create cluster --node-count='' @ str_int node_count
                      @ '' --node-size='' @ node_size @ '' --zones='' @ region in
      seq (vprint self (CR # ''$: '' @ command))
     (bind (pass_command_to_shell P command) (\<lambda>output.
      seq (if raw_output then print output else ret ())
        (spin_up_cluster P self dry_run raw_output))))"

definition delete_cluster :: "'w platform \<Rightarrow> interface \<Rightarrow> bool \<Rightarrow> bool \<Rightarrow> ('w, unit) prog" where
  "delete_cluster P self dry_run raw_output =
     (let arg = yes_arg dry_run;
          command = ''kops delete cluster'' @ arg in
      seq (vprint self (CR # ''$: '' @ command))
     (bind (pass_command_to_shell P command) (\<lambda>output.
      seq (if raw_output then print output else ret ())
        (vprint self (CR # ''Cluster deleted'')))))"

subsection \<open>Pipeline stages\<close>

definition yaml :: "'w platform \<Rightarrow> yaml_call \<Rightarrow> ('w, unit) prog" where
  "yaml P c = call (\<lambda>_. Yaml c) (yaml_creation P c)"

definition configure_base_cluster :: "'w platform \<Rightarrow> interface \<Rightarrow> ('w, unit) prog" where
  "configure_base_cluster P self =
     seq (yaml P create_secret_yaml)
    (seq (yaml P create_secret_store_yaml)
    (seq (yaml P create_redis_service_yaml)
    (seq (yaml P create_redis_master_yaml)
    (seq (yaml P (create_queue_maker_yaml (original_images_bucket self)))
         (yaml P create_poll_yaml)))))"

text \<open>
  The six \<open>_activate_...\<close> methods have one shape: a notice, then the command passed to
  the shell, its output dropped.
\<close>

definition activate :: "'w platform \<Rightarrow> interface \<Rightarrow> string \<Rightarrow> string \<Rightarrow> ('w, unit) prog" where
  "activate P self notice command =
     seq (vprint self (CR # notice))
       (bind (pass_command_to_shell P command) (\<lambda>_. ret ()))"

definition activate_secret :: "'w platform \<Rightarrow> interface \<Rightarrow> ('w, unit) prog" where
  "activate_secret P self =
     activate P self ''Planting Secret'' ''kubectl create -f secret.yaml''"

definition activate_secret_store :: "'w platform \<Rightarrow> interface \<Rightarrow> ('w, unit) prog" where
  "activate_secret_store P self =
     activate P self ''Creating Secret'' ''kubectl create -f secret_store.yaml''"

definition activate_redis_service :: "'w platform \<Rightarrow> interface \<Rightarrow> ('w, unit) prog" where
  "activate_redis_service P self =
     activate P self ''Creating Redis Service'' ''kubectl create -f redis_service.yaml''"

definition activate_redis_master :: "'w platform \<Rightarrow> interface \<Rightarrow> ('w, unit) prog" where
  "activate_redis_master P self =
     activate P self ''Starting Redis Master'' ''kubectl create -f redis_master.yaml''"

definition activate_queue_maker :: "'w platform \<Rightarrow> interface \<Rightarrow> ('w, unit) prog" where
  "activate_queue_maker P self =
     activate P self ''Starting Queue Maker'' ''kubectl create -f queue_maker.yaml''"

definition activate_poll :: "'w platform \<Rightarrow> interface \<Rightarrow> ('w, unit) prog" where
  "activate_poll P self =
     activate P self ''Starting Poll'' ''kubectl create -f poll.yaml''"

definition activate_base_components :: "'w platform \<Rightarrow> interface \<Rightarrow> ('w, unit) prog" where
  "activate_base_components P self =
     seq (activate_secret P self)
    (seq (activate_secret_store P self)
    (seq (activate_redis_service P self)
    (seq (activate_redis_master P self)
         (vprint self (CR # ''Ready to upload'')))))"

subsection \<open>The constructor\<close>

definition kubectl_missing :: string where
  "kubectl_missing = ''cannot find kubectl. Install via homebrew with ''
     @ ''`brew update && brew install kops kubectl`''"

definition awscli_missing :: string where
  "awscli_missing = ''cannot find awscli. Install with ''
     @ ''`pip install awscli --upgrade --user`''"

definition not_ready_notice :: string where
  "not_ready_notice =
     CR # ''Cluster not ready.'' @ [LF]
       @ '' If you have created a cluster, please wait longer try again.''
       @ '' If you have not created a cluster, please do Cluster.create_cluster()'' @ [LF]"

definition init :: "'w platform \<Rightarrow> string \<Rightarrow> bool \<Rightarrow> ('w, interface) prog" where
  "init P cluster_name_prefix verbose_flag =
     (let self = \<lparr>cluster_name = cluster_name_prefix @ ''.k8s.local'',
                  kops_state_store_name = cluster_name_prefix @ ''-kops-state-store'',
                  original_images_bucket = cluster_name_prefix @ ''-original-images-bucket'',
                  augmented_images_bucket = cluster_name_prefix @ ''-augmented-images-bucket'',
                  verbose = verbose_flag\<rparr> in
      bind (package_message_non_zero P self ''kubectl'' '' -h'') (\<lambda>found.
      if \<not> found then raise (AssertionError kubectl_missing) else
      bind (package_message_non_zero P self ''aws'' '' help'') (\<lambda>found.
      if \<not> found then raise (AssertionError awscli_missing) else
      bind (bucket_exists P self (kops_state_store_name self)) (\<lambda>found.
      seq (if \<not> found then create_cluster_state_store P self else ret ())
     (seq (create_image_buckets P self)
     (seq (check_environmental_variables P self)
     (bind (cluster_ready P self) (\<lambda>ready.
      seq (if ready
           then seq (vprint self (CR # ''Cluster appears to be ready''))
               (seq (configure_base_cluster P self)
                    (activate_base_components P self))
           else print not_ready_notice)
        (ret self)))))))))"

subsection \<open>Upload and transform\<close>

text \<open>An optional argument inside an f-string: \<open>None\<close> is written \<open>None\<close>.\<close>

definition fmt :: "string option \<Rightarrow> string" where
  "fmt x = (case x of None \<Rightarrow> ''None'' | Some s \<Rightarrow> s)"

definition upload_images ::
  "'w platform \<Rightarrow> interface \<Rightarrow> string option \<Rightarrow> string option \<Rightarrow> ('w, unit) prog" where
  "upload_images P self local_images_directory s3_origin =
     seq (vprint self (CR # ''Uploading ...''))
    (bind (if truthy_str s3_origin
           then ret (''aws s3 cp s3://'' @ fmt s3_origin @ '' s3://''
                       @ original_images_bucket self @ '' --recursive --quiet'')
           else if truthy_str local_images_directory
           then ret (''aws s3 cp '' @ fmt local_images_directory @ '' s3://''
                       @ original_images_bucket self @ '' --recursive --quiet'')
           else raise (ValueError ''at least one image origin must be not None''))
       (\<lambda>command.
     bind (pass_command_to_shell P command) (\<lambda>_.
     seq (vprint self (CR # ''Uploading ... Complete''))
    (seq (activate_queue_maker P self)
         (vprint self (CR # ''Ready to transform''))))))"

definition transform :: "'w platform \<Rightarrow> interface \<Rightarrow> int \<Rightarrow> ('w, unit) prog" where
  "transform P self num_workers =
     seq (activate_poll P self)
    (seq (vprint self (CR # ''Starting Workers''))
    (seq (yaml P (create_job_yaml (original_images_bucket self)
                    (augmented_images_bucket self) num_workers))
         (let command = ''kubectl create -f job.yaml'' in
          bind (pass_command_to_shell P command) (\<lambda>_. ret ()))))"

subsection \<open>Progress\<close>

definition get_progress :: "'w platform \<Rightarrow> ('w, int option) prog" where
  "get_progress P =
     (let command = ''kubectl logs poll'' in
      bind (pass_command_to_shell P command) (\<lambda>output.
        let output = splitlines output in
        if length output > 0
        then (let counts = split_chr CHR '':'' (last output) in
              case counts of
                [] \<Rightarrow> raise (IndexError ''list index out of range'')
              | count # _ \<Rightarrow>
                  (case py_int count of
                     None \<Rightarrow> raise (ValueError count)
                   | Some progress \<Rightarrow> ret (Some progress)))
        else ret None))"

text \<open>\<open>itertools.cycle(['-', '/', '|', '\\'])\<close> after \<open>k\<close> calls of \<open>next\<close>.\<close>

definition spinner :: "nat \<Rightarrow> char" where
  "spinner k = [CHR ''-'', CHR ''/'', CHR ''|'', CHR 0x5C] ! (k mod 4)"

definition remaining_notice :: "int \<Rightarrow> char \<Rightarrow> string" where
  "remaining_notice n c = CR # ''~'' @ str_int n @ '' original images remaining  '' @ [c]"

text \<open>\<open>time.sleep\<close> refuses a negative length.\<close>

definition sleep :: "int \<Rightarrow> ('w, unit) prog" where
  "sleep delay =
     (if delay < 0 then raise (ValueError ''sleep length must be non-negative'')
      else emit (Sleep delay))"

text \<open>
  The loop of \<open>progress\<close>, with the number of rounds left and the number of
  \<open>next(spinner)\<close> calls so far.
\<close>

fun progress_loop :: "'w platform \<Rightarrow> int \<Rightarrow> nat \<Rightarrow> nat \<Rightarrow> ('w, unit) prog" where
  "progress_loop P delay 0 k = ret ()"
| "progress_loop P delay (Suc n) k =
     bind (get_progress P) (\<lambda>main.
       let batch_size = 100 * 2 ^ 6 in
       bind (if truthy_int main
             then seq (emit (Stdout (remaining_notice
                               (batch_size * ((case main of Some m \<Rightarrow> m | None \<Rightarrow> 0) + 1))
                               (spinner k))))
                    (ret (Suc k))
             else ret k) (\<lambda>k'.
       seq (sleep delay) (progress_loop P delay n k')))"

definition progress :: "'w platform \<Rightarrow> interface \<Rightarrow> int \<Rightarrow> int \<Rightarrow> ('w, unit) prog" where
  "progress P self delay total_count = progress_loop P delay (nat total_count) 0"

subsection \<open>Retrieval\<close>

text \<open>
  The \<open>while True\<close> loop of \<open>_download_augmented_images_pointers\<close>. It ends only when a
  page has no contents or no continuation token, so a run that never ends is the value
  \<open>None\<close> of the outer option. A result \<open>Inr None\<close> is Python's \<open>None\<close>, from the bare
  \<open>return\<close>.
\<close>

partial_function (option) list_loop ::
  "'w platform \<Rightarrow> kwargs \<Rightarrow> s3_pointer list \<Rightarrow> 'w \<Rightarrow> event list
     \<Rightarrow> ((error + s3_pointer list option) \<times> 'w \<times> event list) option" where
  "list_loop P kw image_pointers w log =
     (case list_objects_v2 P kw w of
        (Inl e, w1) \<Rightarrow> Some (Inl e, w1, log @ [ListObjects kw])
      | (Inr response, w1) \<Rightarrow>
          (case Contents response of
             None \<Rightarrow> Some (Inr None, w1, log @ [ListObjects kw])
           | Some objects \<Rightarrow>
               (case NextContinuationToken response of
                  None \<Rightarrow> Some (Inr (Some (image_pointers @ objects)), w1, log @ [ListObjects kw])
                | Some token \<Rightarrow>
                    list_loop P (kw\<lparr>ContinuationToken := Some token\<rparr>)
                      (image_pointers @ objects) w1 (log @ [ListObjects kw]))))"

declare list_loop.simps [code]

definition download_augmented_images_pointers ::
  "'w platform \<Rightarrow> interface \<Rightarrow> 'w
     \<Rightarrow> ((error + s3_pointer list option) \<times> 'w \<times> event list) option" where
  "download_augmented_images_pointers P self w =
     (case cpu_count P of
        None \<Rightarrow> Some (Inl (TypeError ''unsupported operand type(s) for *''), w, [])
      | Some n \<Rightarrow>
          list_loop P \<lparr>Bucket = augmented_images_bucket self, ContinuationToken = None\<rparr> [] w [])"

text \<open>
  \<open>download_augmented_images\<close> hands what the listing returned to \<open>executor.map\<close>,
  which iterates it at once: \<open>None\<close> is a \<open>TypeError\<close>. The downloads themselves run
  in the pool's threads and are not part of this model.
\<close>

definition download_augmented_images ::
  "'w platform \<Rightarrow> interface \<Rightarrow> 'w \<Rightarrow> ((error + unit) \<times> 'w \<times> event list) option" where
  "download_augmented_images P self w =
     (case download_augmented_images_pointers P self w of
        None \<Rightarrow> None
      | Some (Inl e, w1, l1) \<Rightarrow> Some (Inl e, w1, l1)
      | Some (Inr image_pointers, w1, l1) \<Rightarrow>
          Some (case image_pointers of
                  None \<Rightarrow> Inl (TypeError ''NoneType object is not iterable'')
                | Some pointers \<Rightarrow> Inr (),
                w1, l1 @ [PoolMap image_pointers]))"

section \<open>A sample platform\<close>

text \<open>
  A platform to run the model on. Its world is the list of the account's buckets. The
  tools are installed, every command writes what \<open>tools\<close> says, \<open>aws s3api
  create-bucket\<close> adds the bucket unless \<open>frozen\<close>, the manifest writers succeed, and
  the listing is answered by \<open>srv\<close>. Command outputs are ASCII, which \<open>ascii_decode\<close>
  decodes as UTF-8 does.
\<close>

definition ascii_decode :: "string \<Rightarrow> string option" where
  "ascii_decode bs = (if list_all (\<lambda>c. (of_char c :: nat) < 128) bs then Some bs else None)"

definition sample_tools :: "string \<Rightarrow> string \<Rightarrow> string \<times> string" where
  "sample_tools probe command =
     (if command = ''kubectl -h'' then (''kubectl controls the Kubernetes cluster manager.'', [])
      else if command = ''aws help'' then (''AWS()'', [])
      else if command = ''kops validate cluster'' then (probe, [])
      else ([], []))"

definition sample_run :: "bool \<Rightarrow> string list \<Rightarrow> string list \<Rightarrow> (error + unit) \<times> string list" where
  "sample_run frozen argv w =
     (Inr (),
      if \<not> frozen \<and> length argv = 7 \<and> take 4 argv = [''aws'', ''s3api'', ''create-bucket'', ''--bucket'']
      then (argv ! 4) # w else w)"

definition sample ::
  "(string \<Rightarrow> string option) \<Rightarrow> (string \<Rightarrow> string \<times> string) \<Rightarrow> bool \<Rightarrow> (kwargs \<Rightarrow> response)
     \<Rightarrow> string list platform" where
  "sample env tools frozen srv =
     \<lparr>environ = env,
      cpu_count = Some 4,
      decode = ascii_decode,
      process = (\<lambda>command w. (tools command, w)),
      subprocess_run = sample_run frozen,
      buckets_all = (\<lambda>w. (Inr w, w)),
      list_objects_v2 = (\<lambda>kw w. (Inr (srv kw), w)),
      yaml_creation = (\<lambda>c w. (Inr (), w))\<rparr>"

definition demo_env :: "string \<Rightarrow> string option" where
  "demo_env = [''KOPS_CLUSTER_NAME'' \<mapsto> ''demo.k8s.local'',
               ''KOPS_STATE_STORE'' \<mapsto> ''s3://demo-kops-state-store'']"

definition other_env :: "string \<Rightarrow> string option" where
  "other_env = [''KOPS_CLUSTER_NAME'' \<mapsto> ''other.k8s.local'',
                ''KOPS_STATE_STORE'' \<mapsto> ''s3://demo-kops-state-store'']"

definition no_pages :: "kwargs \<Rightarrow> response" where
  "no_pages kw = \<lparr>Contents = None, NextContinuationToken = None\<rparr>"

definition ready_tools :: "string \<Rightarrow> string \<times> string" where
  "ready_tools = sample_tools ''Your cluster demo.k8s.local is ready''"

definition demo_self :: interface where
  "demo_self = \<lparr>cluster_name = ''demo.k8s.local'',
                 kops_state_store_name = ''demo-kops-state-store'',
                 original_images_bucket = ''demo-original-images-bucket'',
                 augmented_images_bucket = ''demo-augmented-images-bucket'',
                 verbose = False\<rparr>"

definition failing_tools :: "string \<Rightarrow> string \<times> string" where
  "failing_tools command = ([], ''Error from server (AlreadyExists): secrets already exists'')"

section \<open>Reading a run\<close>

text \<open>The calls a run makes outside the module: its events without the writes to \<open>sys.stdout\<close>.\<close>

definition external :: "event list \<Rightarrow> event list" where
  "external evs = filter (\<lambda>e. case e of Stdout s \<Rightarrow> False | _ \<Rightarrow> True) evs"

text \<open>Tools where \<open>kubectl logs poll\<close> writes the given log.\<close>

definition poll_tools :: "string \<Rightarrow> string \<Rightarrow> string \<times> string" where
  "poll_tools log command = (if command = ''kubectl logs poll'' then (log, []) else ([], []))"

text \<open>
  Paginated listings. \<open>serves P kw w pages\<close>: from the world \<open>w\<close> the platform answers the
  request \<open>kw\<close> with the first page, the same request with the continuation token of
  that page with the second page, and so on. \<open>requests kw pages\<close> are these requests,
  and \<open>contents_of\<close> is the contents list of a page, empty where the key is missing.
\<close>

fun serves :: "'w platform \<Rightarrow> kwargs \<Rightarrow> 'w \<Rightarrow> response list \<Rightarrow> bool" where
  "serves P kw w [] = True"
| "serves P kw w (p # ps) =
     (case list_objects_v2 P kw w of
        (Inl e, w1) \<Rightarrow> False
      | (Inr r, w1) \<Rightarrow>
          r = p \<and> serves P (kw\<lparr>ContinuationToken := NextContinuationToken p\<rparr>) w1 ps)"

fun requests :: "kwargs \<Rightarrow> response list \<Rightarrow> kwargs list" where
  "requests kw [] = []"
| "requests kw (p # ps) = kw # requests (kw\<lparr>ContinuationToken := NextContinuationToken p\<rparr>) ps"

definition contents_of :: "response \<Rightarrow> s3_pointer list" where
  "contents_of p = (case Contents p of None \<Rightarrow> [] | Some objects \<Rightarrow> objects)"

text \<open>The request and the world after the pages have been served.\<close>

fun after_pages :: "'w platform \<Rightarrow> kwargs \<Rightarrow> 'w \<Rightarrow> response list \<Rightarrow> kwargs \<times> 'w" where
  "after_pages P kw w [] = (kw, w)"
| "after_pages P kw w (p # ps) =
     after_pages P (kw\<lparr>ContinuationToken := NextContinuationToken p\<rparr>)
       (snd (list_objects_v2 P kw w)) ps"

text \<open>Two listings: the two pages of the specification, and a first page followed by an answer without contents.\<close>

definition two_pages :: "kwargs \<Rightarrow> response" where
  "two_pages kw =
     (if ContinuationToken kw = None
      then \<lparr>Contents = Some [\<lparr>Key = ''o1''\<rparr>, \<lparr>Key = ''o2''\<rparr>], NextContinuationToken = Some ''T1''\<rparr>
      else if ContinuationToken kw = Some ''T1''
      then \<lparr>Contents = Some [\<lparr>Key = ''o3''\<rparr>], NextContinuationToken = None\<rparr>
      else \<lparr>Contents = None, NextContinuationToken = None\<rparr>)"

definition cut_pages :: "kwargs \<Rightarrow> response" where
  "cut_pages kw =
     (if ContinuationToken kw = None
      then \<lparr>Contents = Some [\<lparr>Key = ''o1''\<rparr>, \<lparr>Key = ''o2''\<rparr>], NextContinuationToken = Some ''T1''\<rparr>
      else \<lparr>Contents = None, NextContinuationToken = None\<rparr>)"

section \<open>Reading the constructor's run\<close>

text \<open>
  Kinds of events: a resource-creation call (\<open>subprocess.run\<close>: create-bucket and
  put-bucket-versioning are its only uses), a read of the environment, and a call to the
  cluster side, which is any shell command other than the two installation checks, or
  the writing of a manifest.
\<close>

definition is_creation :: "event \<Rightarrow> bool" where
  "is_creation e = (case e of Run argv \<Rightarrow> True | _ \<Rightarrow> False)"

definition is_environ :: "event \<Rightarrow> bool" where
  "is_environ e = (case e of Environ key \<Rightarrow> True | _ \<Rightarrow> False)"

definition is_cluster_call :: "event \<Rightarrow> bool" where
  "is_cluster_call e =
     (case e of
        Shell command out err \<Rightarrow> command \<noteq> ''kubectl -h'' \<and> command \<noteq> ''aws help''
      | Yaml c \<Rightarrow> True
      | _ \<Rightarrow> False)"

text \<open>What \<open>_check_environmental_variables\<close> accepts, for the names derived from a prefix.\<close>

definition env_valid :: "'w platform \<Rightarrow> string \<Rightarrow> bool" where
  "env_valid P pfx =
     (environ P ''KOPS_CLUSTER_NAME'' = Some (pfx @ ''.k8s.local'')
      \<and> environ P ''KOPS_STATE_STORE'' = Some (''s3://'' @ pfx @ ''-kops-state-store''))"

text \<open>The shell commands of a run, in order, and among them the activations of the base stages.\<close>

definition shell_commands :: "event list \<Rightarrow> string list" where
  "shell_commands evs =
     List.map_filter (\<lambda>e. case e of Shell command out err \<Rightarrow> Some command | _ \<Rightarrow> None) evs"

definition base_commands :: "string list" where
  "base_commands =
     [''kubectl create -f secret.yaml'',
      ''kubectl create -f secret_store.yaml'',
      ''kubectl create -f redis_service.yaml'',
      ''kubectl create -f redis_master.yaml'']"

definition activations :: "event list \<Rightarrow> string list" where
  "activations evs = filter (\<lambda>c. c \<in> set base_commands) (shell_commands evs)"

text \<open>
  The readiness probe answered \<open>Ready\<close>: the decoded, stripped output of \<open>kops validate
  cluster\<close> contains the message for the cluster of the prefix.
\<close>

definition says_ready :: "'w platform \<Rightarrow> string \<Rightarrow> string \<Rightarrow> bool" where
  "says_ready P pfx out =
     (case decode P out of
        None \<Rightarrow> False
      | Some text \<Rightarrow> str_in (''Your cluster '' @ pfx @ ''.k8s.local'' @ '' is ready'') (strip text))"

text \<open>An event that activates a base stage.\<close>

definition is_base :: "event \<Rightarrow> bool" where
  "is_base e = (case e of Shell c out err \<Rightarrow> c \<in> set base_commands | _ \<Rightarrow> False)"

text \<open>
  A run is staged when its activations of base stages are the first stages, in their
  order, and stand after a readiness probe that said \<open>Ready\<close>.
\<close>

definition staged :: "'w platform \<Rightarrow> string \<Rightarrow> event list \<Rightarrow> bool" where
  "staged P pfx evs =
     (prefix (activations evs) base_commands
      \<and> (activations evs \<noteq> [] \<longrightarrow>
           (\<exists>pre out err post.
              evs = pre @ Shell ''kops validate cluster'' out err # post
              \<and> activations pre = [] \<and> says_ready P pfx out)))"

text \<open>
  Properties of all runs of a method: every event satisfies \<open>Q\<close>; the events come in two
  phases, the first within \<open>Q1\<close> and the second within \<open>Q2\<close>; every run is staged.
\<close>

definition all_events :: "(event \<Rightarrow> bool) \<Rightarrow> ('w, 'a) prog \<Rightarrow> bool" where
  "all_events Q m = (\<forall>w. \<forall>e\<in>set (events (m w)). Q e)"

definition phased :: "(event \<Rightarrow> bool) \<Rightarrow> (event \<Rightarrow> bool) \<Rightarrow> ('w, 'a) prog \<Rightarrow> bool" where
  "phased Q1 Q2 m =
     (\<forall>w. \<exists>pre post. events (m w) = pre @ post \<and> (\<forall>e\<in>set pre. Q1 e) \<and> (\<forall>e\<in>set post. Q2 e))"

definition staged_prog :: "'w platform \<Rightarrow> string \<Rightarrow> ('w, 'a) prog \<Rightarrow> bool" where
  "staged_prog P pfx m = (\<forall>w. staged P pfx (events (m w)))"

section \<open>Reading the provisioning of a run\<close>

text \<open>
  A creation request is a call of \<open>subprocess.run\<close> whose arguments begin \<open>aws s3api
  create-bucket\<close>; \<open>creations\<close> are the creation requests of a run, in order, and
  \<open>requests_for\<close> are the requests that \<open>_create_bucket\<close> makes for the given buckets.
\<close>

definition is_create :: "event \<Rightarrow> bool" where
  "is_create e =
     (case e of Run argv \<Rightarrow> take 3 argv = [''aws'', ''s3api'', ''create-bucket''] | _ \<Rightarrow> False)"

definition creations :: "event list \<Rightarrow> event list" where
  "creations evs = filter is_create evs"

definition requests_for :: "string list \<Rightarrow> event list" where
  "requests_for bs = map (\<lambda>b. Run (split_ws (create_bucket_command b))) bs"

text \<open>
  The existence checks of a run are its calls of \<open>s3.buckets.all()\<close>; \<open>answers\<close> are what
  they were answered, in order. The check of a bucket returns false on an answer when
  the answer is a listing and the bucket is not in it.
\<close>

definition answers :: "event list \<Rightarrow> (error + string list) list" where
  "answers evs = List.map_filter (\<lambda>e. case e of BucketsAll r \<Rightarrow> Some r | _ \<Rightarrow> None) evs"

definition check_false :: "error + string list \<Rightarrow> string \<Rightarrow> bool" where
  "check_false r b = (case r of Inl e \<Rightarrow> False | Inr names \<Rightarrow> b \<notin> set names)"

text \<open>
  The requests that are due when the buckets \<open>bs\<close> are checked in this order and the
  checks are answered \<open>rs\<close>: one for each bucket whose check returned false.
\<close>

definition due :: "(error + string list) list \<Rightarrow> string list \<Rightarrow> event list" where
  "due rs bs = requests_for (map snd (filter (\<lambda>(r, b). check_false r b) (zip rs bs)))"

text \<open>
  A method accounts for the buckets \<open>bs\<close> when in every run its creation requests are
  the requests due by the answers to its checks, and a run that returns has made a
  check for each bucket of \<open>bs\<close>; it is silent when it neither checks nor requests.
\<close>

definition accounted :: "string list \<Rightarrow> ('w, 'a) prog \<Rightarrow> bool" where
  "accounted bs m =
     (\<forall>w. creations (events (m w)) = due (answers (events (m w))) bs
          \<and> (\<forall>x. result (m w) = Inr x \<longrightarrow> length (answers (events (m w))) = length bs))"

definition silent :: "event \<Rightarrow> bool" where
  "silent e = (case e of Run argv \<Rightarrow> False | BucketsAll r \<Rightarrow> False | _ \<Rightarrow> True)"

text \<open>The shell commands that the constructor passes.\<close>

definition constructor_commands :: "string list" where
  "constructor_commands = [''kubectl -h'', ''aws help'', ''kops validate cluster''] @ base_commands"

text \<open>
  The platform keeps a store of buckets, \<open>bk w\<close> in the world \<open>w\<close>, for the names \<open>names\<close>:
  the listing gives the buckets of the store and leaves them as they are; a creation
  request for one of the names returns and puts the bucket in the store; switching the
  versioning on for one of the names returns and leaves the store as it is, and so do
  the constructor's shell commands and the manifest writers.
\<close>

definition store :: "'w platform \<Rightarrow> ('w \<Rightarrow> string set) \<Rightarrow> string set \<Rightarrow> bool" where
  "store P bk names =
     ((\<forall>w. (case fst (buckets_all P w) of Inl e \<Rightarrow> False | Inr listing \<Rightarrow> set listing = bk w)
           \<and> bk (snd (buckets_all P w)) = bk w)
      \<and> (\<forall>b\<in>names. \<forall>w.
            fst (subprocess_run P (split_ws (create_bucket_command b)) w) = Inr ()
            \<and> bk (snd (subprocess_run P (split_ws (create_bucket_command b)) w)) = insert b (bk w))
      \<and> (\<forall>b\<in>names. \<forall>w.
            fst (subprocess_run P (split_ws (apply_versioning_command b)) w) = Inr ()
            \<and> bk (snd (subprocess_run P (split_ws (apply_versioning_command b)) w)) = bk w)
      \<and> (\<forall>c\<in>set constructor_commands. \<forall>w. bk (snd (process P c w)) = bk w)
      \<and> (\<forall>c w. bk (snd (yaml_creation P c w)) = bk w))"

text \<open>A method that leaves the store as it is.\<close>

definition keeps :: "('w \<Rightarrow> string set) \<Rightarrow> ('w, 'a) prog \<Rightarrow> bool" where
  "keeps bk m = (\<forall>w. bk (world (m w)) = bk w)"

text \<open>
  A method provisions the buckets \<open>bs\<close> on a store: in a run that returns, its creation
  requests are those for the buckets of \<open>bs\<close> that the store did not hold at first, in
  the order of \<open>bs\<close>, and afterwards the store holds them all; a run that raises made
  either these requests or none.
\<close>

definition provisions :: "('w \<Rightarrow> string set) \<Rightarrow> string list \<Rightarrow> ('w, 'a) prog \<Rightarrow> bool" where
  "provisions bk bs m =
     (\<forall>w. (creations (events (m w)) = []
            \<or> creations (events (m w)) = requests_for (filter (\<lambda>b. b \<notin> bk w) bs))
          \<and> (\<forall>a. result (m w) = Inr a \<longrightarrow>
                 creations (events (m w)) = requests_for (filter (\<lambda>b. b \<notin> bk w) bs)
                 \<and> bk (world (m w)) = bk w \<union> set bs))"

section \<open>Results, events and worlds of composed runs\<close>

lemma result_ret [simp]: "result (ret x w) = Inr x"
  by (simp add: result_def ret_def)

lemma events_ret [simp]: "events (ret x w) = []"
  by (simp add: events_def ret_def)

lemma world_ret [simp]: "world (ret x w) = w"
  by (simp add: world_def ret_def)

lemma result_raise [simp]: "result (raise e w) = Inl e"
  by (simp add: result_def raise_def)

lemma events_raise [simp]: "events (raise e w) = []"
  by (simp add: events_def raise_def)

lemma world_raise [simp]: "world (raise e w) = w"
  by (simp add: world_def raise_def)

lemma result_emit [simp]: "result (emit ev w) = Inr ()"
  by (simp add: result_def emit_def)

lemma events_emit [simp]: "events (emit ev w) = [ev]"
  by (simp add: events_def emit_def)

lemma world_emit [simp]: "world (emit ev w) = w"
  by (simp add: world_def emit_def)

lemma result_call [simp]: "result (call ev cap w) = fst (cap w)"
  by (simp add: result_def call_def split: prod.splits)

lemma events_call [simp]: "events (call ev cap w) = [ev (fst (cap w))]"
  by (simp add: events_def call_def split: prod.splits)

lemma world_call [simp]: "world (call ev cap w) = snd (cap w)"
  by (simp add: world_def call_def split: prod.splits)

lemma result_bind:
  "result (bind m f w) =
     (case result (m w) of Inl e \<Rightarrow> Inl e | Inr x \<Rightarrow> result (f x (world (m w))))"
  by (simp add: result_def world_def bind_def split: prod.splits sum.splits)

lemma events_bind:
  "events (bind m f w) =
     events (m w) @ (case result (m w) of Inl e \<Rightarrow> [] | Inr x \<Rightarrow> events (f x (world (m w))))"
  by (simp add: result_def world_def events_def bind_def split: prod.splits sum.splits)

lemma world_bind:
  "world (bind m f w) =
     (case result (m w) of Inl e \<Rightarrow> world (m w) | Inr x \<Rightarrow> world (f x (world (m w))))"
  by (simp add: result_def world_def bind_def split: prod.splits sum.splits)

lemma result_seq:
  "result (seq m n w) =
     (case result (m w) of Inl e \<Rightarrow> Inl e | Inr x \<Rightarrow> result (n (world (m w))))"
  by (simp add: seq_def result_bind)

lemma events_seq:
  "events (seq m n w) =
     events (m w) @ (case result (m w) of Inl e \<Rightarrow> [] | Inr x \<Rightarrow> events (n (world (m w))))"
  by (simp add: seq_def events_bind)

lemma world_seq:
  "world (seq m n w) =
     (case result (m w) of Inl e \<Rightarrow> world (m w) | Inr x \<Rightarrow> world (n (world (m w))))"
  by (simp add: seq_def world_bind)

lemma result_vprint [simp]: "result (vprint self s w) = Inr ()"
  by (simp add: vprint_def)

lemma world_vprint [simp]: "world (vprint self s w) = w"
  by (simp add: vprint_def)

lemma events_vprint: "events (vprint self s w) = (if verbose self then [Stdout s] else [])"
  by (simp add: vprint_def)

lemma result_print [simp]: "result (print s w) = Inr ()"
  by (simp add: print_def)

lemma world_print [simp]: "world (print s w) = w"
  by (simp add: print_def)

lemma events_print [simp]: "events (print s w) = [Stdout (s @ [LF])]"
  by (simp add: print_def)

section \<open>Text\<close>

lemma startswith_append: "startswith (p @ s) p"
  by (induction p) auto

lemma str_in_here: "str_in sub (sub @ s)"
  by (cases "sub @ s") (auto simp: startswith_append dest: sym)

lemma str_in_append: "str_in sub (a @ sub @ b)"
  by (induction a) (auto simp: str_in_here)

section \<open>Naming\<close>

lemma init_result:
  assumes "result (init P pfx v w) = Inr a"
  shows "a = \<lparr>cluster_name = pfx @ ''.k8s.local'',
              kops_state_store_name = pfx @ ''-kops-state-store'',
              original_images_bucket = pfx @ ''-original-images-bucket'',
              augmented_images_bucket = pfx @ ''-augmented-images-bucket'',
              verbose = v\<rparr>"
  using assms
  by (simp add: init_def Let_def result_bind result_seq split: sum.splits if_splits)

text \<open>
  Claim C7. The four names of a constructed interface are the prefix followed by a fixed
  suffix, whatever the platform, the world and the verbosity: two interfaces built from
  one prefix agree on all four, and the prefix \<open>demo\<close> gives \<open>demo.k8s.local\<close>,
  \<open>demo-kops-state-store\<close>, \<open>demo-original-images-bucket\<close> and
  \<open>demo-augmented-images-bucket\<close>.
\<close>

theorem deterministic_naming:
  assumes "result (init P pfx v w) = Inr a"
    and "result (init P' pfx v' w') = Inr b"
  shows "cluster_name a = pfx @ ''.k8s.local''
       \<and> kops_state_store_name a = pfx @ ''-kops-state-store''
       \<and> original_images_bucket a = pfx @ ''-original-images-bucket''
       \<and> augmented_images_bucket a = pfx @ ''-augmented-images-bucket''
       \<and> cluster_name b = cluster_name a
       \<and> kops_state_store_name b = kops_state_store_name a
       \<and> original_images_bucket b = original_images_bucket a
       \<and> augmented_images_bucket b = augmented_images_bucket a
       \<and> (pfx = ''demo'' \<longrightarrow>
            cluster_name a = ''demo.k8s.local''
          \<and> kops_state_store_name a = ''demo-kops-state-store''
          \<and> original_images_bucket a = ''demo-original-images-bucket''
          \<and> augmented_images_bucket a = ''demo-augmented-images-bucket'')"
proof -
  note a = init_result [OF assms(1)]
  note b = init_result [OF assms(2)]
  show ?thesis
    by (simp add: a b)
qed

text \<open>A whole construction on the sample platform: no bucket at first, the cluster ready.\<close>

lemma sample_init_run:
  "init (sample demo_env ready_tools False no_pages) ''demo'' False []
     = (Inr demo_self,
        [''demo-augmented-images-bucket'', ''demo-original-images-bucket'', ''demo-kops-state-store''],
        [Shell ''kubectl -h'' ''kubectl controls the Kubernetes cluster manager.'' [],
         Shell ''aws help'' ''AWS()'' [],
         BucketsAll (Inr []),
         Run [''aws'', ''s3api'', ''create-bucket'', ''--bucket'', ''demo-kops-state-store'',
              ''--region'', ''us-east-1''],
         Run [''aws'', ''s3api'', ''put-bucket-versioning'', ''--bucket'', ''demo-kops-state-store'',
              ''--versioning-configuration'', ''Status=Enabled''],
         BucketsAll (Inr [''demo-kops-state-store'']),
         Run [''aws'', ''s3api'', ''create-bucket'', ''--bucket'', ''demo-original-images-bucket'',
              ''--region'', ''us-east-1''],
         BucketsAll (Inr [''demo-original-images-bucket'', ''demo-kops-state-store'']),
         Run [''aws'', ''s3api'', ''create-bucket'', ''--bucket'', ''demo-augmented-images-bucket'',
              ''--region'', ''us-east-1''],
         Environ ''KOPS_CLUSTER_NAME'',
         Environ ''KOPS_STATE_STORE'',
         Shell ''kops validate cluster'' ''Your cluster demo.k8s.local is ready'' [],
         Yaml create_secret_yaml,
         Yaml create_secret_store_yaml,
         Yaml create_redis_service_yaml,
         Yaml create_redis_master_yaml,
         Yaml (create_queue_maker_yaml ''demo-original-images-bucket''),
         Yaml create_poll_yaml,
         Shell ''kubectl create -f secret.yaml'' [] [],
         Shell ''kubectl create -f secret_store.yaml'' [] [],
         Shell ''kubectl create -f redis_service.yaml'' [] [],
         Shell ''kubectl create -f redis_master.yaml'' [] []])"
  by code_simp

lemma sample_init_quiet:
  "result (init (sample demo_env ready_tools False no_pages) ''demo'' False [])
     = Inr \<lparr>cluster_name = ''demo.k8s.local'',
             kops_state_store_name = ''demo-kops-state-store'',
             original_images_bucket = ''demo-original-images-bucket'',
             augmented_images_bucket = ''demo-augmented-images-bucket'',
             verbose = False\<rparr>"
  by (simp add: sample_init_run result_def demo_self_def)

lemma sample_init_verbose:
  "result (init (sample demo_env ready_tools True no_pages) ''demo'' True [''demo-kops-state-store''])
     = Inr \<lparr>cluster_name = ''demo.k8s.local'',
             kops_state_store_name = ''demo-kops-state-store'',
             original_images_bucket = ''demo-original-images-bucket'',
             augmented_images_bucket = ''demo-augmented-images-bucket'',
             verbose = True\<rparr>"
  by code_simp

theorem deterministic_naming_witness:
  "(\<exists>a b. result (init (sample demo_env ready_tools False no_pages) ''demo'' False []) = Inr a
        \<and> result (init (sample demo_env ready_tools True no_pages) ''demo'' True
                    [''demo-kops-state-store'']) = Inr b
        \<and> cluster_name a = ''demo.k8s.local''
        \<and> kops_state_store_name a = ''demo-kops-state-store''
        \<and> original_images_bucket a = ''demo-original-images-bucket''
        \<and> augmented_images_bucket a = ''demo-augmented-images-bucket''
        \<and> cluster_name b = cluster_name a
        \<and> kops_state_store_name b = kops_state_store_name a
        \<and> original_images_bucket b = original_images_bucket a
        \<and> augmented_images_bucket b = augmented_images_bucket a)"
  using deterministic_naming [OF sample_init_quiet sample_init_verbose]
    sample_init_quiet sample_init_verbose
  by simp

section \<open>Validation of the environment\<close>

text \<open>
  Claim C8. With the prefix \<open>demo\<close> the cluster name is \<open>demo.k8s.local\<close>. If
  \<open>KOPS_CLUSTER_NAME\<close> is set to another value, \<open>_check_environmental_variables\<close>
  raises \<open>EnvironmentError\<close>, and the message contains the expected value
  \<open>demo.k8s.local\<close>, inside the statement \<open>export KOPS_CLUSTER_NAME="demo.k8s.local"\<close>.
  (A variable that is not set at all is a \<open>KeyError\<close>, see \<open>os_environ\<close>.)
\<close>

theorem validation_exactness:
  assumes "cluster_name self = ''demo'' @ ''.k8s.local''"
    and "environ P ''KOPS_CLUSTER_NAME'' = Some v"
    and "v \<noteq> ''demo.k8s.local''"
  shows "\<exists>msg. result (check_environmental_variables P self w) = Inl (EnvironmentError msg)
           \<and> str_in ''demo.k8s.local'' msg
           \<and> str_in (''export KOPS_CLUSTER_NAME='' @ [DQ] @ ''demo.k8s.local'' @ [DQ]) msg"
proof -
  let ?msg = "''please run this command in Terminal and try again:''
                @ export_hint ''KOPS_CLUSTER_NAME'' (cluster_name self)"
  have r: "result (check_environmental_variables P self w) = Inl (EnvironmentError ?msg)"
    using assms
    by (simp add: check_environmental_variables_def os_environ_def Let_def
                  result_seq result_bind)
  have "?msg = (''please run this command in Terminal and try again:'' @ [SQ] @ ''export KOPS_CLUSTER_NAME=''
                 @ [DQ]) @ ''demo.k8s.local'' @ ([DQ] @ [SQ] @ '' >> $HOME/.bash_profile'')"
    using assms(1) by (simp add: export_hint_def)
  then have c1: "str_in ''demo.k8s.local'' ?msg"
    by (simp only: str_in_append)
  have "?msg = (''please run this command in Terminal and try again:'' @ [SQ])
                 @ (''export KOPS_CLUSTER_NAME='' @ [DQ] @ ''demo.k8s.local'' @ [DQ])
                 @ ([SQ] @ '' >> $HOME/.bash_profile'')"
    using assms(1) by (simp add: export_hint_def)
  then have c2: "str_in (''export KOPS_CLUSTER_NAME='' @ [DQ] @ ''demo.k8s.local'' @ [DQ]) ?msg"
    by (simp only: str_in_append)
  from r c1 c2 show ?thesis by blast
qed

theorem validation_exactness_witness:
  "\<exists>msg. result (check_environmental_variables (sample other_env ready_tools False no_pages)
                   demo_self []) = Inl (EnvironmentError msg)
         \<and> str_in ''demo.k8s.local'' msg"
proof -
  have 1: "cluster_name demo_self = ''demo'' @ ''.k8s.local''"
    by (simp add: demo_self_def)
  have 2: "environ (sample other_env ready_tools False no_pages) ''KOPS_CLUSTER_NAME''
             = Some ''other.k8s.local''"
    by (simp add: sample_def other_env_def)
  have 3: "''other.k8s.local'' \<noteq> ''demo.k8s.local''"
    by simp
  from validation_exactness [OF 1 2 3, of "[]"] show ?thesis
    by blast
qed

section \<open>The shell\<close>

lemma events_pass:
  "events (pass_command_to_shell P c w)
     = [Shell c (fst (fst (process P c w))) (snd (fst (process P c w)))]"
  by (simp add: pass_command_to_shell_def Popen_communicate_def communicate_def truthy_str_def
        events_def bind_def raise_def ret_def split: prod.splits option.splits)

lemma result_pass:
  "result (pass_command_to_shell P c w)
     = (case decode P (fst (fst (process P c w))) of
          None \<Rightarrow> Inl UnicodeDecodeError
        | Some text \<Rightarrow> Inr (strip text))"
  by (simp add: pass_command_to_shell_def Popen_communicate_def communicate_def truthy_str_def
        result_def bind_def raise_def ret_def split: prod.splits option.splits)

lemma world_pass:
  "world (pass_command_to_shell P c w) = snd (process P c w)"
  by (simp add: pass_command_to_shell_def Popen_communicate_def communicate_def truthy_str_def
        world_def bind_def raise_def ret_def split: prod.splits option.splits)

lemma external_Nil [simp]: "external [] = []"
  by (simp add: external_def)

lemma external_Cons [simp]:
  "external (e # es) = (case e of Stdout s \<Rightarrow> external es | _ \<Rightarrow> e # external es)"
  by (simp add: external_def split: event.splits)

lemma external_append [simp]: "external (a @ b) = external a @ external b"
  by (simp add: external_def)

lemma external_vprint [simp]: "external (events (vprint self s w)) = []"
  by (simp add: events_vprint)

text \<open>
  Claim C5. The claim does not hold of the code. \<open>_pass_command_to_shell\<close> opens the
  process with \<open>stdout=PIPE\<close> only, so \<open>communicate()\<close> gives \<open>None\<close> for the error
  output, the test \<open>if error\<close> is never true and \<open>OSError\<close> is never raised: the result
  depends on the standard output alone (\<open>result_pass\<close>). Here \<open>kubectl create -f
  secret.yaml\<close> writes an error message and no output; the call returns the empty text.
\<close>

theorem shell_error_output_not_raised:
  "process (sample demo_env failing_tools False no_pages) ''kubectl create -f secret.yaml'' []
     = (([], ''Error from server (AlreadyExists): secrets already exists''), [])
   \<and> result (pass_command_to_shell (sample demo_env failing_tools False no_pages)
               ''kubectl create -f secret.yaml'' []) = Inr []"
  by (simp add: result_pass sample_def failing_tools_def ascii_decode_def strip_def)

section \<open>Upload\<close>

text \<open>
  Claim C9. \<open>upload_images\<close> with neither a local directory nor a remote source raises
  \<open>ValueError\<close> (the spec's \<open>InputError\<close>) and has made no call outside the module by
  then, whatever the platform. With a remote source alone, the first such call is the
  shell command that copies from \<open>s3://source\<close> to the original-images bucket; with a
  local directory alone, it is the command that copies from the directory. A source is
  given when the argument is a non-empty string: the code tests the truth value of the
  arguments, and the empty string is false as \<open>None\<close> is.
\<close>

theorem upload_images_sources:
  "(result (upload_images P self None None w)
      = Inl (ValueError ''at least one image origin must be not None'')
    \<and> external (events (upload_images P self None None w)) = [])
   \<and> (src \<noteq> [] \<longrightarrow>
        (\<exists>out err rest. external (events (upload_images P self None (Some src) w))
           = Shell (''aws s3 cp s3://'' @ src @ '' s3://'' @ original_images_bucket self
                      @ '' --recursive --quiet'') out err # rest))
   \<and> (dir \<noteq> [] \<longrightarrow>
        (\<exists>out err rest. external (events (upload_images P self (Some dir) None w))
           = Shell (''aws s3 cp '' @ dir @ '' s3://'' @ original_images_bucket self
                      @ '' --recursive --quiet'') out err # rest))"
  by (simp add: upload_images_def truthy_str_def fmt_def result_seq result_bind
        events_seq events_bind events_pass)

theorem upload_images_sources_witness:
  "''incoming'' \<noteq> [] \<and> ''photos'' \<noteq> []
   \<and> (\<exists>out err rest.
         external (events (upload_images (sample demo_env ready_tools False no_pages) demo_self
                             None (Some ''incoming'') []))
           = Shell ''aws s3 cp s3://incoming s3://demo-original-images-bucket --recursive --quiet''
               out err # rest)
   \<and> (\<exists>out err rest.
         external (events (upload_images (sample demo_env ready_tools False no_pages) demo_self
                             (Some ''photos'') None []))
           = Shell ''aws s3 cp photos s3://demo-original-images-bucket --recursive --quiet''
               out err # rest)"
  using upload_images_sources [of "sample demo_env ready_tools False no_pages" demo_self "[]"
          "''incoming''" "''photos''"]
  by (simp add: demo_self_def)

section \<open>Progress\<close>

lemma nat_one: "nat 1 = Suc 0"
  by simp

text \<open>One round of the loop of \<open>progress\<close>: the sample, the notice if the sample is true, the sleep.\<close>

lemma progress_one_round:
  "events (progress P self delay 1 w) =
     events (get_progress P w) @
     (case result (get_progress P w) of
        Inl e \<Rightarrow> []
      | Inr main \<Rightarrow>
          (if truthy_int main
           then [Stdout (remaining_notice
                   (6400 * ((case main of Some m \<Rightarrow> m | None \<Rightarrow> 0) + 1)) (spinner 0))]
           else [])
          @ (if delay < 0 then [] else [Sleep delay]))"
  by (simp add: progress_def nat_one events_bind events_seq result_bind result_seq
        world_bind world_seq sleep_def split: sum.splits)

lemma get_progress_42:
  "get_progress (sample demo_env (poll_tools ''42:queued'') False no_pages) []
     = (Inr (Some 42), [], [Shell ''kubectl logs poll'' ''42:queued'' []])"
  by code_simp

lemma get_progress_0:
  "get_progress (sample demo_env (poll_tools ''0:queued'') False no_pages) []
     = (Inr (Some 0), [], [Shell ''kubectl logs poll'' ''0:queued'' []])"
  by code_simp

lemma get_progress_no_log:
  "get_progress (sample demo_env (poll_tools []) False no_pages) []
     = (Inr None, [], [Shell ''kubectl logs poll'' [] []])"
  by code_simp

text \<open>
  The parts of claim C6 that hold: a log tail \<open>42:...\<close> gives the counter 42 and the
  estimate \<open>6400 * (42 + 1) = 275200\<close>, and without log output the sample is \<open>None\<close> and
  nothing is raised.
\<close>

lemma progress_42:
  "events (progress (sample demo_env (poll_tools ''42:queued'') False no_pages) demo_self 1 1 [])
     = [Shell ''kubectl logs poll'' ''42:queued'' [],
        Stdout (CR # ''~275200 original images remaining  -''),
        Sleep 1]"
  by (subst progress_one_round)
     (simp add: get_progress_42 result_def events_def truthy_int_def remaining_notice_def
        spinner_def str_int_def str_nat.simps digit_chr_def)

lemma progress_no_log:
  "result (get_progress (sample demo_env (poll_tools []) False no_pages) []) = Inr None
   \<and> events (progress (sample demo_env (poll_tools []) False no_pages) demo_self 1 1 [])
       = [Shell ''kubectl logs poll'' [] [], Sleep 1]"
  by (subst progress_one_round)
     (simp add: get_progress_no_log result_def events_def truthy_int_def)

text \<open>
  Claim C6. The claim does not hold of the code at the counter 0. The log tail
  \<open>0:...\<close> is parsed to the counter 0, for which the estimate is \<open>6400 * (0 + 1) = 6400\<close>;
  but \<open>progress\<close> guards the estimate with \<open>if main\<close>, which is false for 0 as it is for
  \<open>None\<close>, so the round writes nothing: its only events are the log query and the sleep.
\<close>

theorem progress_zero_counter_no_estimate:
  "result (get_progress (sample demo_env (poll_tools ''0:queued'') False no_pages) [])
     = Inr (Some 0)
   \<and> events (progress (sample demo_env (poll_tools ''0:queued'') False no_pages) demo_self 1 1 [])
       = [Shell ''kubectl logs poll'' ''0:queued'' [], Sleep 1]"
  by (subst progress_one_round)
     (simp add: get_progress_0 result_def events_def truthy_int_def)

section \<open>Listing the augmented images\<close>

lemma serves_append:
  "serves P kw w (ps @ qs) =
     (serves P kw w ps \<and> serves P (fst (after_pages P kw w ps)) (snd (after_pages P kw w ps)) qs)"
  by (induction ps arbitrary: kw w) (auto split: prod.splits sum.splits)

lemma requests_append:
  "requests kw (ps @ qs) = requests kw ps @ requests (fst (after_pages P kw w ps)) qs"
  by (induction ps arbitrary: kw w) auto

lemma length_requests: "length (requests kw ps) = length ps"
  by (induction ps arbitrary: kw) auto

text \<open>
  While the pages have contents and a token the loop goes on: it has appended their
  contents, in order, and has issued their requests.
\<close>

lemma list_loop_pages:
  assumes "serves P kw w ps"
    and "\<forall>p\<in>set ps. Contents p \<noteq> None \<and> NextContinuationToken p \<noteq> None"
  shows "list_loop P kw acc w log =
           list_loop P (fst (after_pages P kw w ps)) (acc @ concat (map contents_of ps))
             (snd (after_pages P kw w ps)) (log @ map ListObjects (requests kw ps))"
  using assms
proof (induction ps arbitrary: kw acc w log)
  case Nil
  then show ?case by simp
next
  case (Cons p ps)
  obtain w1 where 1: "list_objects_v2 P kw w = (Inr p, w1)"
    using Cons.prems(1) by (auto split: prod.splits sum.splits)
  obtain objs t where 2: "Contents p = Some objs" "NextContinuationToken p = Some t"
    using Cons.prems(2) by auto
  have 3: "serves P (kw\<lparr>ContinuationToken := Some t\<rparr>) w1 ps"
    using Cons.prems(1) 1 2 by simp
  have "list_loop P kw acc w log =
          list_loop P (kw\<lparr>ContinuationToken := Some t\<rparr>) (acc @ objs) w1 (log @ [ListObjects kw])"
    by (subst list_loop.simps) (simp add: 1 2)
  also have "\<dots> = list_loop P (fst (after_pages P (kw\<lparr>ContinuationToken := Some t\<rparr>) w1 ps))
                     ((acc @ objs) @ concat (map contents_of ps))
                     (snd (after_pages P (kw\<lparr>ContinuationToken := Some t\<rparr>) w1 ps))
                     ((log @ [ListObjects kw])
                        @ map ListObjects (requests (kw\<lparr>ContinuationToken := Some t\<rparr>) ps))"
    using Cons.IH [OF 3] Cons.prems(2) by simp
  finally show ?case
    using 2 by (simp add: 1 contents_of_def [of p])
qed

text \<open>The last round: a page without a token ends the loop, a page without contents ends it with \<open>None\<close>.\<close>

lemma list_loop_last:
  assumes "serves P kw w [q]" and "Contents q = Some objs" and "NextContinuationToken q = None"
  shows "\<exists>w'. list_loop P kw acc w log = Some (Inr (Some (acc @ objs)), w', log @ [ListObjects kw])"
proof -
  obtain w1 where 1: "list_objects_v2 P kw w = (Inr q, w1)"
    using assms(1) by (auto split: prod.splits sum.splits)
  show ?thesis
    by (subst list_loop.simps) (simp add: 1 assms)
qed

lemma list_loop_no_contents:
  assumes "serves P kw w [q]" and "Contents q = None"
  shows "\<exists>w'. list_loop P kw acc w log = Some (Inr None, w', log @ [ListObjects kw])"
proof -
  obtain w1 where 1: "list_objects_v2 P kw w = (Inr q, w1)"
    using assms(1) by (auto split: prod.splits sum.splits)
  show ?thesis
    by (subst list_loop.simps) (simp add: 1 assms)
qed

lemma list_loop_complete:
  assumes "serves P kw w (pages @ [final])"
    and "\<forall>p\<in>set pages. Contents p \<noteq> None \<and> NextContinuationToken p \<noteq> None"
    and "Contents final \<noteq> None" and "NextContinuationToken final = None"
  shows "\<exists>w'. list_loop P kw [] w [] =
           Some (Inr (Some (concat (map contents_of (pages @ [final])))), w',
                 map ListObjects (requests kw (pages @ [final])))"
proof -
  let ?kw = "fst (after_pages P kw w pages)"
  let ?w = "snd (after_pages P kw w pages)"
  from assms(1) have s: "serves P kw w pages" and f: "serves P ?kw ?w [final]"
    by (simp_all add: serves_append)
  obtain objs where c: "Contents final = Some objs"
    using assms(3) by auto
  have "list_loop P kw [] w [] =
          list_loop P ?kw (concat (map contents_of pages)) ?w (map ListObjects (requests kw pages))"
    using list_loop_pages [OF s assms(2), of "[]" "[]"] by simp
  moreover obtain w' where
    "list_loop P ?kw (concat (map contents_of pages)) ?w (map ListObjects (requests kw pages))
       = Some (Inr (Some (concat (map contents_of pages) @ objs)), w',
               map ListObjects (requests kw pages) @ [ListObjects ?kw])"
    using list_loop_last [OF f c assms(4)] by blast
  ultimately show ?thesis
    by (simp add: requests_append [of kw pages "[final]" P w] contents_of_def [of final] c)
qed

lemma list_loop_cut:
  assumes "serves P kw w (pages @ [final])"
    and "\<forall>p\<in>set pages. Contents p \<noteq> None \<and> NextContinuationToken p \<noteq> None"
    and "Contents final = None"
  shows "\<exists>w'. list_loop P kw [] w [] =
           Some (Inr None, w', map ListObjects (requests kw (pages @ [final])))"
proof -
  let ?kw = "fst (after_pages P kw w pages)"
  let ?w = "snd (after_pages P kw w pages)"
  from assms(1) have s: "serves P kw w pages" and f: "serves P ?kw ?w [final]"
    by (simp_all add: serves_append)
  have "list_loop P kw [] w [] =
          list_loop P ?kw (concat (map contents_of pages)) ?w (map ListObjects (requests kw pages))"
    using list_loop_pages [OF s assms(2), of "[]" "[]"] by simp
  moreover obtain w' where
    "list_loop P ?kw (concat (map contents_of pages)) ?w (map ListObjects (requests kw pages))
       = Some (Inr None, w', map ListObjects (requests kw pages) @ [ListObjects ?kw])"
    using list_loop_no_contents [OF f assms(3)] by blast
  ultimately show ?thesis
    by (simp add: requests_append [of kw pages "[final]" P w])
qed

text \<open>
  Claim C2. Let the platform serve a sequence of pages, each request after the first
  carrying the continuation token of the page before, where every page has a contents
  list, every page but the last has a token and the last has none. Then
  \<open>_download_augmented_images_pointers\<close> returns, with the concatenation of the
  pages' contents in order (every object as often as the pages hold it, no page twice),
  after exactly one listing call per page, and the calls are the requests that follow
  the tokens. (\<open>os.cpu_count()\<close> must be known, or the method fails before it lists.)
\<close>

theorem pagination_completeness:
  assumes "cpu_count P \<noteq> None"
    and "serves P \<lparr>Bucket = augmented_images_bucket self, ContinuationToken = None\<rparr> w
           (pages @ [final])"
    and "\<forall>p\<in>set pages. Contents p \<noteq> None \<and> NextContinuationToken p \<noteq> None"
    and "Contents final \<noteq> None"
    and "NextContinuationToken final = None"
  shows "\<exists>w' calls.
           download_augmented_images_pointers P self w =
             Some (Inr (Some (concat (map contents_of (pages @ [final])))), w',
                   map ListObjects calls)
         \<and> calls = requests \<lparr>Bucket = augmented_images_bucket self, ContinuationToken = None\<rparr>
                      (pages @ [final])
         \<and> length calls = length (pages @ [final])"
proof -
  obtain n where n: "cpu_count P = Some n"
    using assms(1) by auto
  from list_loop_complete [OF assms(2-5)] show ?thesis
    by (auto simp: download_augmented_images_pointers_def n length_requests)
qed

theorem pagination_completeness_witness:
  "download_augmented_images_pointers (sample demo_env ready_tools False two_pages) demo_self []
     = Some (Inr (Some [\<lparr>Key = ''o1''\<rparr>, \<lparr>Key = ''o2''\<rparr>, \<lparr>Key = ''o3''\<rparr>]), [],
             [ListObjects \<lparr>Bucket = ''demo-augmented-images-bucket'', ContinuationToken = None\<rparr>,
              ListObjects \<lparr>Bucket = ''demo-augmented-images-bucket'',
                            ContinuationToken = Some ''T1''\<rparr>])
   \<and> distinct [\<lparr>Key = ''o1''\<rparr>, \<lparr>Key = ''o2''\<rparr>, \<lparr>Key = ''o3''\<rparr>]"
proof -
  let ?P = "sample demo_env ready_tools False two_pages"
  let ?p1 = "\<lparr>Contents = Some [\<lparr>Key = ''o1''\<rparr>, \<lparr>Key = ''o2''\<rparr>],
               NextContinuationToken = Some ''T1''\<rparr>"
  let ?p2 = "\<lparr>Contents = Some [\<lparr>Key = ''o3''\<rparr>], NextContinuationToken = None\<rparr>"
  have 1: "cpu_count ?P \<noteq> None"
    by (simp add: sample_def)
  have 2: "serves ?P \<lparr>Bucket = augmented_images_bucket demo_self, ContinuationToken = None\<rparr> []
             ([?p1] @ [?p2])"
    by (simp add: sample_def two_pages_def)
  have 3: "\<forall>p\<in>set [?p1]. Contents p \<noteq> None \<and> NextContinuationToken p \<noteq> None"
    by simp
  have 4: "Contents ?p2 \<noteq> None" and 5: "NextContinuationToken ?p2 = None"
    by simp_all
  have w: "world_of = []" if "download_augmented_images_pointers ?P demo_self [] = Some (r, world_of, l)"
    for r l and world_of :: "string list"
    using that
    by (simp add: download_augmented_images_pointers_def sample_def two_pages_def
          list_loop.simps [of _ _ _ "[]"])
  from pagination_completeness [OF 1 2 3 4 5] w show ?thesis
    by (auto simp: contents_of_def demo_self_def)
qed

text \<open>
  Claim C10. Let the platform serve pages with contents and tokens and then a page without a
  contents key (the first page, if there are none before it). Then
  \<open>_download_augmented_images_pointers\<close> returns \<open>None\<close>, neither the empty list nor the
  pointers of the earlier pages, and \<open>download_augmented_images\<close> passes that \<open>None\<close> to
  the pool's \<open>map\<close>, which raises instead of ending with no download.
\<close>

theorem missing_contents_returns_none:
  assumes "cpu_count P \<noteq> None"
    and "serves P \<lparr>Bucket = augmented_images_bucket self, ContinuationToken = None\<rparr> w
           (pages @ [final])"
    and "\<forall>p\<in>set pages. Contents p \<noteq> None \<and> NextContinuationToken p \<noteq> None"
    and "Contents final = None"
  shows "\<exists>w' calls.
           download_augmented_images_pointers P self w = Some (Inr None, w', calls)
         \<and> download_augmented_images P self w =
             Some (Inl (TypeError ''NoneType object is not iterable''), w', calls @ [PoolMap None])"
proof -
  obtain n where n: "cpu_count P = Some n"
    using assms(1) by auto
  from list_loop_cut [OF assms(2-4)] show ?thesis
    by (auto simp: download_augmented_images_def download_augmented_images_pointers_def n)
qed

theorem missing_contents_returns_none_witness:
  "(\<exists>w' calls.
      download_augmented_images_pointers (sample demo_env ready_tools False cut_pages) demo_self []
        = Some (Inr None, w', calls)
    \<and> download_augmented_images (sample demo_env ready_tools False cut_pages) demo_self []
        = Some (Inl (TypeError ''NoneType object is not iterable''), w', calls @ [PoolMap None]))
   \<and> (\<exists>w' calls.
      download_augmented_images_pointers (sample demo_env ready_tools False no_pages) demo_self []
        = Some (Inr None, w', calls))"
proof -
  let ?P = "sample demo_env ready_tools False cut_pages"
  let ?Q = "sample demo_env ready_tools False no_pages"
  let ?p1 = "\<lparr>Contents = Some [\<lparr>Key = ''o1''\<rparr>, \<lparr>Key = ''o2''\<rparr>],
               NextContinuationToken = Some ''T1''\<rparr>"
  let ?p2 = "\<lparr>Contents = None, NextContinuationToken = None\<rparr>"
  have 1: "cpu_count ?P \<noteq> None" and q1: "cpu_count ?Q \<noteq> None"
    by (simp_all add: sample_def)
  have 2: "serves ?P \<lparr>Bucket = augmented_images_bucket demo_self, ContinuationToken = None\<rparr> []
             ([?p1] @ [?p2])"
    by (simp add: sample_def cut_pages_def)
  have q2: "serves ?Q \<lparr>Bucket = augmented_images_bucket demo_self, ContinuationToken = None\<rparr> []
             ([] @ [?p2])"
    by (simp add: sample_def no_pages_def)
  have 3: "\<forall>p\<in>set [?p1]. Contents p \<noteq> None \<and> NextContinuationToken p \<noteq> None"
    and q3: "\<forall>p\<in>set ([] :: response list). Contents p \<noteq> None \<and> NextContinuationToken p \<noteq> None"
    by simp_all
  have 4: "Contents ?p2 = None"
    by simp
  from missing_contents_returns_none [OF 1 2 3 4]
       missing_contents_returns_none [OF q1 q2 q3 4]
  show ?thesis
    by blast
qed

section \<open>Events of every run of a method\<close>

lemma all_ret: "all_events Q (ret x)"
  by (simp add: all_events_def)

lemma all_raise: "all_events Q (raise e)"
  by (simp add: all_events_def)

lemma all_emit: "Q ev \<Longrightarrow> all_events Q (emit ev)"
  by (simp add: all_events_def)

lemma all_call: "(\<And>r. Q (ev r)) \<Longrightarrow> all_events Q (call ev cap)"
  by (simp add: all_events_def)

lemma all_bind: "all_events Q m \<Longrightarrow> (\<And>x. all_events Q (f x)) \<Longrightarrow> all_events Q (bind m f)"
  by (auto simp: all_events_def events_bind split: sum.splits)

lemma all_seq: "all_events Q m \<Longrightarrow> all_events Q n \<Longrightarrow> all_events Q (seq m n)"
  by (simp add: seq_def all_bind)

lemma all_if: "all_events Q m \<Longrightarrow> all_events Q n \<Longrightarrow> all_events Q (if c then m else n)"
  by simp

lemma all_vprint: "Q (Stdout s) \<Longrightarrow> all_events Q (vprint self s)"
  by (simp add: all_events_def events_vprint)

lemma all_print: "Q (Stdout (s @ [LF])) \<Longrightarrow> all_events Q (print s)"
  by (simp add: all_events_def)

lemma all_pass: "(\<And>out err. Q (Shell c out err)) \<Longrightarrow> all_events Q (pass_command_to_shell P c)"
  by (simp add: all_events_def events_pass)

text \<open>A method that can only go on in a state of affairs \<open>G\<close>.\<close>

lemma all_bind_guard:
  assumes "all_events Q m" and "\<And>w x. result (m w) = Inr x \<Longrightarrow> G"
    and "\<And>x. G \<Longrightarrow> all_events Q (f x)"
  shows "all_events Q (bind m f)"
  unfolding all_events_def
proof (intro allI ballI)
  fix w e
  assume e: "e \<in> set (events (bind m f w))"
  show "Q e"
  proof (cases "result (m w)")
    case (Inl err)
    with e assms(1) show ?thesis
      by (simp add: events_bind all_events_def)
  next
    case (Inr x)
    then have G by (rule assms(2))
    then have "all_events Q (f x)" by (rule assms(3))
    with e Inr assms(1) show ?thesis
      by (auto simp: events_bind all_events_def)
  qed
qed

lemma all_package:
  assumes "\<And>s. Q (Stdout s)" and "\<And>out err. Q (Shell (package @ arguments) out err)"
  shows "all_events Q (package_message_non_zero P self package arguments)"
  unfolding package_message_non_zero_def Let_def
  by (intro all_seq all_bind all_vprint all_pass all_ret assms)

lemma all_bucket_exists:
  assumes "\<And>s. Q (Stdout s)" and "\<And>r. Q (BucketsAll r)"
  shows "all_events Q (bucket_exists P self b)"
  unfolding bucket_exists_def
  by (intro all_seq all_bind all_vprint all_call all_ret assms)

lemma all_create_bucket:
  assumes "\<And>argv. Q (Run argv)"
  shows "all_events Q (create_bucket P b)"
  unfolding create_bucket_def Let_def
  by (intro all_call assms)

lemma all_create_store:
  assumes "\<And>s. Q (Stdout s)" and "\<And>argv. Q (Run argv)"
  shows "all_events Q (create_cluster_state_store P self)"
  unfolding create_cluster_state_store_def Let_def
  by (intro all_seq all_vprint all_create_bucket all_call assms)

lemma all_create_image_buckets:
  assumes "\<And>s. Q (Stdout s)" and "\<And>r. Q (BucketsAll r)" and "\<And>argv. Q (Run argv)"
  shows "all_events Q (create_image_buckets P self)"
  unfolding create_image_buckets_def
  by (intro all_seq all_bind all_if all_bucket_exists all_create_bucket all_ret assms)

lemma all_check:
  assumes "\<And>s. Q (Stdout s)" and "\<And>key. Q (Environ key)"
  shows "all_events Q (check_environmental_variables P self)"
proof -
  have e: "all_events Q (os_environ P key)" for key
    unfolding os_environ_def
    by (cases "environ P key") (auto intro!: all_seq all_emit all_raise all_ret assms)
  show ?thesis
    unfolding check_environmental_variables_def Let_def
    by (intro all_seq all_bind all_if all_vprint all_raise e assms)
qed

lemma all_cluster_ready:
  assumes "\<And>s. Q (Stdout s)" and "\<And>out err. Q (Shell ''kops validate cluster'' out err)"
  shows "all_events Q (cluster_ready P self)"
  unfolding cluster_ready_def Let_def
  by (intro all_seq all_bind all_vprint all_pass all_ret assms)

lemma all_configure:
  assumes "\<And>c. Q (Yaml c)"
  shows "all_events Q (configure_base_cluster P self)"
  unfolding configure_base_cluster_def yaml_def
  by (intro all_seq all_call assms)

lemma all_activate:
  assumes "\<And>s. Q (Stdout s)" and "\<And>out err. Q (Shell c out err)"
  shows "all_events Q (activate P self notice c)"
  unfolding activate_def
  by (intro all_seq all_bind all_vprint all_pass all_ret assms)

lemma all_activate_base:
  assumes "\<And>s. Q (Stdout s)" and "\<And>c out err. Q (Shell c out err)"
  shows "all_events Q (activate_base_components P self)"
  unfolding activate_base_components_def activate_secret_def activate_secret_store_def
    activate_redis_service_def activate_redis_master_def
  by (intro all_seq all_activate all_vprint assms)

text \<open>The check returns only in an environment that it accepts.\<close>

lemma check_returns:
  assumes "result (check_environmental_variables P self w) = Inr x"
  shows "environ P ''KOPS_CLUSTER_NAME'' = Some (cluster_name self)
       \<and> environ P ''KOPS_STATE_STORE'' = Some (''s3://'' @ kops_state_store_name self)"
  using assms
  by (simp add: check_environmental_variables_def os_environ_def Let_def result_seq result_bind
        split: option.splits if_splits sum.splits)

section \<open>Runs in two phases\<close>

lemma phased_first: "all_events Q1 m \<Longrightarrow> phased Q1 Q2 m"
  unfolding phased_def all_events_def
proof
  fix w
  assume "\<forall>w. \<forall>e\<in>set (events (m w)). Q1 e"
  then have "events (m w) = events (m w) @ [] \<and> (\<forall>e\<in>set (events (m w)). Q1 e) \<and> (\<forall>e\<in>set []. Q2 e)"
    by simp
  then show "\<exists>pre post. events (m w) = pre @ post \<and> (\<forall>e\<in>set pre. Q1 e) \<and> (\<forall>e\<in>set post. Q2 e)"
    by blast
qed

lemma phased_second: "all_events Q2 m \<Longrightarrow> phased Q1 Q2 m"
  unfolding phased_def all_events_def
proof
  fix w
  assume "\<forall>w. \<forall>e\<in>set (events (m w)). Q2 e"
  then have "events (m w) = [] @ events (m w) \<and> (\<forall>e\<in>set []. Q1 e) \<and> (\<forall>e\<in>set (events (m w)). Q2 e)"
    by simp
  then show "\<exists>pre post. events (m w) = pre @ post \<and> (\<forall>e\<in>set pre. Q1 e) \<and> (\<forall>e\<in>set post. Q2 e)"
    by blast
qed

lemma phased_bind:
  assumes "all_events Q1 m" and "\<And>x. phased Q1 Q2 (f x)"
  shows "phased Q1 Q2 (bind m f)"
  unfolding phased_def
proof
  fix w
  show "\<exists>pre post. events (bind m f w) = pre @ post \<and> (\<forall>e\<in>set pre. Q1 e) \<and> (\<forall>e\<in>set post. Q2 e)"
  proof (cases "result (m w)")
    case (Inl e)
    with assms(1) have "events (bind m f w) = events (m w) @ [] \<and> (\<forall>e\<in>set (events (m w)). Q1 e)
        \<and> (\<forall>e\<in>set []. Q2 e)"
      by (simp add: events_bind all_events_def)
    then show ?thesis by blast
  next
    case (Inr x)
    from assms(2) [of x] obtain pre post where
      p: "events (f x (world (m w))) = pre @ post" "\<forall>e\<in>set pre. Q1 e" "\<forall>e\<in>set post. Q2 e"
      unfolding phased_def by blast
    with assms(1) Inr have "events (bind m f w) = (events (m w) @ pre) @ post
        \<and> (\<forall>e\<in>set (events (m w) @ pre). Q1 e) \<and> (\<forall>e\<in>set post. Q2 e)"
      by (auto simp: events_bind all_events_def)
    then show ?thesis by blast
  qed
qed

lemma phased_if: "phased Q1 Q2 m \<Longrightarrow> phased Q1 Q2 n \<Longrightarrow> phased Q1 Q2 (if c then m else n)"
  by simp

lemma phased_seq: "all_events Q1 m \<Longrightarrow> phased Q1 Q2 n \<Longrightarrow> phased Q1 Q2 (seq m n)"
  by (simp add: seq_def phased_bind)

section \<open>Validation and provisioning in the constructor\<close>

lemma other_init_run:
  "init (sample other_env ready_tools False no_pages) ''demo'' False []
     = (Inl (EnvironmentError (''please run this command in Terminal and try again:''
              @ export_hint ''KOPS_CLUSTER_NAME'' ''demo.k8s.local'')),
        [''demo-augmented-images-bucket'', ''demo-original-images-bucket'', ''demo-kops-state-store''],
        [Shell ''kubectl -h'' ''kubectl controls the Kubernetes cluster manager.'' [],
         Shell ''aws help'' ''AWS()'' [],
         BucketsAll (Inr []),
         Run [''aws'', ''s3api'', ''create-bucket'', ''--bucket'', ''demo-kops-state-store'',
              ''--region'', ''us-east-1''],
         Run [''aws'', ''s3api'', ''put-bucket-versioning'', ''--bucket'', ''demo-kops-state-store'',
              ''--versioning-configuration'', ''Status=Enabled''],
         BucketsAll (Inr [''demo-kops-state-store'']),
         Run [''aws'', ''s3api'', ''create-bucket'', ''--bucket'', ''demo-original-images-bucket'',
              ''--region'', ''us-east-1''],
         BucketsAll (Inr [''demo-original-images-bucket'', ''demo-kops-state-store'']),
         Run [''aws'', ''s3api'', ''create-bucket'', ''--bucket'', ''demo-augmented-images-bucket'',
              ''--region'', ''us-east-1''],
         Environ ''KOPS_CLUSTER_NAME''])"
  by code_simp

text \<open>
  Claim C1, as it stands, does not hold of the code: the constructor provisions first
  and validates afterwards. Here no bucket exists and \<open>KOPS_CLUSTER_NAME\<close> is set to
  \<open>other.k8s.local\<close>: the validation check fails, so it never succeeds, and the run
  has issued the four resource-creation calls by then.
\<close>

theorem creation_before_validation:
  "result (init (sample other_env ready_tools False no_pages) ''demo'' False [])
     = Inl (EnvironmentError (''please run this command in Terminal and try again:''
              @ export_hint ''KOPS_CLUSTER_NAME'' ''demo.k8s.local''))
   \<and> filter is_creation (events (init (sample other_env ready_tools False no_pages) ''demo'' False []))
     = [Run [''aws'', ''s3api'', ''create-bucket'', ''--bucket'', ''demo-kops-state-store'',
             ''--region'', ''us-east-1''],
        Run [''aws'', ''s3api'', ''put-bucket-versioning'', ''--bucket'', ''demo-kops-state-store'',
             ''--versioning-configuration'', ''Status=Enabled''],
        Run [''aws'', ''s3api'', ''create-bucket'', ''--bucket'', ''demo-original-images-bucket'',
             ''--region'', ''us-east-1''],
        Run [''aws'', ''s3api'', ''create-bucket'', ''--bucket'', ''demo-augmented-images-bucket'',
             ''--region'', ''us-east-1'']]"
  by (simp add: other_init_run result_def events_def is_creation_def)

text \<open>
  Claim C1, amended. The validation check runs after the storage provisioning and before
  the readiness probe. The events of every construction split in two parts: the first
  holds the installation checks, the existence checks and every resource-creation call,
  and no read of the environment; the second begins with the validation check and holds
  no resource-creation call, and it holds a call to the cluster side (readiness probe,
  manifest, stage activation) only if the environment passes the validation check.
\<close>

theorem validation_after_provisioning_before_probe:
  "\<exists>pre post.
     events (init P pfx v w) = pre @ post
     \<and> (\<forall>e\<in>set pre. \<not> is_environ e \<and> \<not> is_cluster_call e)
     \<and> (\<forall>e\<in>set post. \<not> is_creation e \<and> (is_cluster_call e \<longrightarrow> env_valid P pfx))"
proof -
  let ?Q1 = "\<lambda>e. \<not> is_environ e \<and> \<not> is_cluster_call e"
  let ?Q2 = "\<lambda>e. \<not> is_creation e \<and> (is_cluster_call e \<longrightarrow> env_valid P pfx)"
  let ?self = "\<lparr>cluster_name = pfx @ ''.k8s.local'',
                kops_state_store_name = pfx @ ''-kops-state-store'',
                original_images_bucket = pfx @ ''-original-images-bucket'',
                augmented_images_bucket = pfx @ ''-augmented-images-bucket'',
                verbose = v\<rparr>"
  have k: "all_events ?Q1 (package_message_non_zero P ?self ''kubectl'' '' -h'')"
    by (rule all_package) (simp_all add: is_environ_def is_cluster_call_def)
  have a: "all_events ?Q1 (package_message_non_zero P ?self ''aws'' '' help'')"
    by (rule all_package) (simp_all add: is_environ_def is_cluster_call_def)
  have b: "all_events ?Q1 (bucket_exists P ?self (kops_state_store_name ?self))"
    by (rule all_bucket_exists) (simp_all add: is_environ_def is_cluster_call_def)
  have s: "all_events ?Q1 (create_cluster_state_store P ?self)"
    by (rule all_create_store) (simp_all add: is_environ_def is_cluster_call_def)
  have i: "all_events ?Q1 (create_image_buckets P ?self)"
    by (rule all_create_image_buckets) (simp_all add: is_environ_def is_cluster_call_def)
  have c: "all_events ?Q2 (check_environmental_variables P ?self)"
    by (rule all_check) (simp_all add: is_creation_def is_cluster_call_def)
  have g: "env_valid P pfx" if "result (check_environmental_variables P ?self w) = Inr x" for w x
    using check_returns [OF that] by (simp add: env_valid_def)
  let ?rest = "bind (cluster_ready P ?self) (\<lambda>ready.
                seq (if ready
                     then seq (vprint ?self (CR # ''Cluster appears to be ready''))
                         (seq (configure_base_cluster P ?self)
                              (activate_base_components P ?self))
                     else print not_ready_notice)
                  (ret ?self))"
  let ?t6 = "seq (check_environmental_variables P ?self) ?rest"
  let ?t5 = "seq (create_image_buckets P ?self) ?t6"
  let ?t4 = "\<lambda>found. seq (if \<not> found then create_cluster_state_store P ?self else ret ()) ?t5"
  let ?t3 = "bind (bucket_exists P ?self (kops_state_store_name ?self)) ?t4"
  let ?t2 = "bind (package_message_non_zero P ?self ''aws'' '' help'')
               (\<lambda>found. if \<not> found then raise (AssertionError awscli_missing) else ?t3)"
  let ?t1 = "bind (package_message_non_zero P ?self ''kubectl'' '' -h'')
               (\<lambda>found. if \<not> found then raise (AssertionError kubectl_missing) else ?t2)"
  have r: "all_events ?Q2 ?rest" if "env_valid P pfx"
    using that
    by (intro all_bind all_seq all_if all_ret all_cluster_ready all_vprint all_print
          all_configure all_activate_base)
       (simp_all add: is_creation_def)
  have t: "all_events ?Q2 ?t6"
    unfolding seq_def [of "check_environmental_variables P ?self"]
    by (rule all_bind_guard [where G = "env_valid P pfx"]) (rule c, erule g, erule r)
  have p5: "phased ?Q1 ?Q2 ?t5"
    by (rule phased_seq [OF i phased_second [OF t]])
  have p4: "phased ?Q1 ?Q2 (?t4 found)" for found
    by (rule phased_seq [OF all_if [OF s all_ret] p5])
  have p3: "phased ?Q1 ?Q2 ?t3"
    by (rule phased_bind [OF b p4])
  have p2: "phased ?Q1 ?Q2 ?t2"
    by (rule phased_bind [OF a phased_if [OF phased_first [OF all_raise] p3]])
  have p1: "phased ?Q1 ?Q2 ?t1"
    by (rule phased_bind [OF k phased_if [OF phased_first [OF all_raise] p2]])
  have eq: "init P pfx v = ?t1"
    unfolding init_def Let_def by (rule refl)
  have "phased ?Q1 ?Q2 (init P pfx v)"
    unfolding eq by (rule p1)
  then show ?thesis
    unfolding phased_def by blast
qed

lemma sample_init_has_creation:
  "list_ex is_creation (events (init (sample demo_env ready_tools False no_pages) ''demo'' False []))"
  by (simp add: sample_init_run events_def is_creation_def)

lemma sample_init_has_cluster_call:
  "list_ex is_cluster_call (events (init (sample demo_env ready_tools False no_pages) ''demo'' False []))"
  by (simp add: sample_init_run events_def is_cluster_call_def)

theorem validation_after_provisioning_before_probe_witness:
  "env_valid (sample demo_env ready_tools False no_pages) ''demo''
   \<and> (\<exists>pre post.
        events (init (sample demo_env ready_tools False no_pages) ''demo'' False []) = pre @ post
        \<and> (\<forall>e\<in>set pre. \<not> is_environ e \<and> \<not> is_cluster_call e)
        \<and> (\<forall>e\<in>set post. \<not> is_creation e
              \<and> (is_cluster_call e \<longrightarrow> env_valid (sample demo_env ready_tools False no_pages) ''demo''))
        \<and> (\<exists>e\<in>set pre. is_creation e)
        \<and> (\<exists>e\<in>set post. is_cluster_call e))"
proof -
  let ?S = "sample demo_env ready_tools False no_pages"
  have v: "env_valid ?S ''demo''"
    by (simp add: env_valid_def sample_def demo_env_def)
  obtain pre post where s: "events (init ?S ''demo'' False []) = pre @ post"
    and p: "\<forall>e\<in>set pre. \<not> is_environ e \<and> \<not> is_cluster_call e"
    and q: "\<forall>e\<in>set post. \<not> is_creation e \<and> (is_cluster_call e \<longrightarrow> env_valid ?S ''demo'')"
    using validation_after_provisioning_before_probe [of ?S "''demo''" False "[]"] by blast
  from sample_init_has_creation s q have c: "\<exists>e\<in>set pre. is_creation e"
    by (auto simp: list_ex_iff)
  from sample_init_has_cluster_call s p have d: "\<exists>e\<in>set post. is_cluster_call e"
    by (auto simp: list_ex_iff)
  from v s p q c d show ?thesis
    by blast
qed

section \<open>Order of the base stages\<close>

lemma activations_Nil [simp]: "activations [] = []"
  by (simp add: activations_def shell_commands_def List.map_filter_simps)

lemma activations_Cons:
  "activations (e # es) = (if is_base e then (case e of Shell c out err \<Rightarrow> [c] | _ \<Rightarrow> []) else [])
                            @ activations es"
  by (simp add: activations_def shell_commands_def List.map_filter_simps is_base_def
        split: event.splits)

lemma activations_append [simp]: "activations (a @ b) = activations a @ activations b"
  by (induction a) (simp_all add: activations_Cons)

lemma activations_quiet: "\<forall>e\<in>set evs. \<not> is_base e \<Longrightarrow> activations evs = []"
  by (induction evs) (simp_all add: activations_Cons)

lemma activations_vprint [simp]: "activations (events (vprint self s w)) = []"
  by (simp add: events_vprint activations_Cons is_base_def)

lemma activations_activate:
  "activations (events (activate P self notice c w)) = (if c \<in> set base_commands then [c] else [])"
  by (simp add: activate_def events_seq events_bind events_pass activations_Cons is_base_def
        split: sum.splits)

lemma activate_base_prefix:
  "prefix (activations (events (activate_base_components P self w))) base_commands"
  by (simp add: activate_base_components_def activate_secret_def activate_secret_store_def
        activate_redis_service_def activate_redis_master_def events_seq activations_activate
        base_commands_def split: sum.splits)

lemma staged_quiet: "\<forall>e\<in>set evs. \<not> is_base e \<Longrightarrow> staged P pfx evs"
  by (simp add: staged_def activations_quiet)

lemma staged_append:
  assumes "\<forall>e\<in>set a. \<not> is_base e" and "staged P pfx b"
  shows "staged P pfx (a @ b)"
proof -
  have a: "activations a = []"
    using assms(1) by (rule activations_quiet)
  show ?thesis
  proof (cases "activations b = []")
    case True
    with a show ?thesis by (simp add: staged_def)
  next
    case False
    with assms(2) obtain pre out err post where
      b: "b = pre @ Shell ''kops validate cluster'' out err # post"
      and p: "activations pre = []" and r: "says_ready P pfx out"
      unfolding staged_def by blast
    have "a @ b = (a @ pre) @ Shell ''kops validate cluster'' out err # post
          \<and> activations (a @ pre) = [] \<and> says_ready P pfx out"
      using a b p r by simp
    then have "\<exists>pre out err post. a @ b = pre @ Shell ''kops validate cluster'' out err # post
          \<and> activations pre = [] \<and> says_ready P pfx out"
      by blast
    with assms(2) a show ?thesis
      by (simp add: staged_def)
  qed
qed

lemma staged_prog_quiet: "all_events (\<lambda>e. \<not> is_base e) m \<Longrightarrow> staged_prog P pfx m"
  by (simp add: staged_prog_def all_events_def staged_quiet)

lemma staged_prog_bind:
  assumes "all_events (\<lambda>e. \<not> is_base e) m" and "\<And>x. staged_prog P pfx (f x)"
  shows "staged_prog P pfx (bind m f)"
  unfolding staged_prog_def
proof
  fix w
  have q: "\<forall>e\<in>set (events (m w)). \<not> is_base e"
    using assms(1) by (simp add: all_events_def)
  show "staged P pfx (events (bind m f w))"
  proof (cases "result (m w)")
    case (Inl e)
    with q show ?thesis
      by (simp add: events_bind staged_quiet)
  next
    case (Inr x)
    from assms(2) [of x] have "staged P pfx (events (f x (world (m w))))"
      by (simp add: staged_prog_def)
    with q have "staged P pfx (events (m w) @ events (f x (world (m w))))"
      by (rule staged_append)
    with Inr show ?thesis
      by (simp add: events_bind)
  qed
qed

lemma staged_prog_seq:
  "all_events (\<lambda>e. \<not> is_base e) m \<Longrightarrow> staged_prog P pfx n \<Longrightarrow> staged_prog P pfx (seq m n)"
  by (simp add: seq_def staged_prog_bind)

lemma staged_prog_if:
  "staged_prog P pfx m \<Longrightarrow> staged_prog P pfx n \<Longrightarrow> staged_prog P pfx (if c then m else n)"
  by simp

text \<open>The probe and what follows it in the constructor.\<close>

lemma cluster_ready_events:
  "\<exists>pre. events (cluster_ready P self w)
           = pre @ [Shell ''kops validate cluster'' (fst (fst (process P ''kops validate cluster'' w)))
                      (snd (fst (process P ''kops validate cluster'' w)))]
         \<and> activations pre = []"
  by (simp add: cluster_ready_def Let_def events_seq events_bind events_pass split: sum.splits)

lemma cluster_ready_true:
  assumes "result (cluster_ready P self w) = Inr True"
    and "cluster_name self = pfx @ ''.k8s.local''"
  shows "says_ready P pfx (fst (fst (process P ''kops validate cluster'' w)))"
  using assms
  by (simp add: cluster_ready_def Let_def result_seq result_bind result_pass says_ready_def
        ready_message_def split: sum.splits option.splits)

lemma staged_from_probe:
  assumes "cluster_name self = pfx @ ''.k8s.local''"
  shows "staged_prog P pfx
           (bind (cluster_ready P self) (\<lambda>ready.
              seq (if ready
                   then seq (vprint self notice)
                       (seq (configure_base_cluster P self) (activate_base_components P self))
                   else print other)
                (ret self)))"
  unfolding staged_prog_def
proof
  fix w
  let ?then = "seq (vprint self notice)
                 (seq (configure_base_cluster P self) (activate_base_components P self))"
  let ?tail = "\<lambda>ready. seq (if ready then ?then else print other) (ret self)"
  let ?out = "fst (fst (process P ''kops validate cluster'' w))"
  let ?err = "snd (fst (process P ''kops validate cluster'' w))"
  obtain pre where pre: "events (cluster_ready P self w) = pre @ [Shell ''kops validate cluster'' ?out ?err]"
    and quiet: "activations pre = []"
    using cluster_ready_events [of P self w] by auto
  have probe: "activations (events (cluster_ready P self w)) = []"
    by (simp add: pre quiet activations_Cons is_base_def base_commands_def)
  show "staged P pfx (events (bind (cluster_ready P self) ?tail w))"
  proof (cases "result (cluster_ready P self w)")
    case (Inl e)
    with probe show ?thesis
      by (simp add: events_bind staged_def)
  next
    case (Inr ready)
    show ?thesis
    proof (cases ready)
      case False
      with Inr probe show ?thesis
        by (simp add: events_bind events_seq staged_def activations_Cons is_base_def)
    next
      case True
      let ?w1 = "world (cluster_ready P self w)"
      let ?rest = "events (?tail True ?w1)"
      have "all_events (\<lambda>e. \<not> is_base e) (configure_base_cluster P self)"
        by (rule all_configure) (simp add: is_base_def)
      then have c: "activations (events (configure_base_cluster P self u)) = []" for u
        by (simp add: all_events_def activations_quiet)
      have "activations ?rest = [] \<or>
            (\<exists>u. activations ?rest = activations (events (activate_base_components P self u)))"
        by (auto simp: events_seq c split: sum.splits)
      then have order: "prefix (activations ?rest) base_commands"
        using activate_base_prefix by auto
      have r: "says_ready P pfx ?out"
        using Inr True assms by (simp add: cluster_ready_true)
      have e: "events (bind (cluster_ready P self) ?tail w)
                 = pre @ Shell ''kops validate cluster'' ?out ?err # ?rest"
        using Inr True by (simp add: events_bind pre)
      have a: "activations (events (bind (cluster_ready P self) ?tail w)) = activations ?rest"
        using Inr True probe by (simp add: events_bind)
      from e quiet r have
        "\<exists>pre out err post.
           events (bind (cluster_ready P self) ?tail w)
             = pre @ Shell ''kops validate cluster'' out err # post
           \<and> activations pre = [] \<and> says_ready P pfx out"
        by blast
      with order a show ?thesis
        by (simp add: staged_def)
    qed
  qed
qed

text \<open>The other public operations activate no base stage.\<close>

lemma activations_yaml [simp]: "activations (events (yaml P c w)) = []"
  by (simp add: yaml_def activations_Cons is_base_def)

lemma activations_Stdout [simp]: "activations (Stdout s # es) = activations es"
  by (simp add: activations_Cons is_base_def)

lemma activations_pass:
  "activations (events (pass_command_to_shell P c w)) = (if c \<in> set base_commands then [c] else [])"
  by (simp add: events_pass activations_Cons is_base_def)

lemma activations_create_image_buckets:
  "activations (events (create_image_buckets P self w)) = []"
proof -
  have "all_events (\<lambda>e. \<not> is_base e) (create_image_buckets P self)"
    by (rule all_create_image_buckets) (simp_all add: is_base_def)
  then show ?thesis
    by (simp add: all_events_def activations_quiet)
qed

lemma activations_validate_cluster:
  "activations (events (validate_cluster P self w)) = []"
  by (simp add: validate_cluster_def cluster_ready_def Let_def events_seq events_bind
        activations_pass base_commands_def split: sum.splits)

lemma activations_spin_up:
  "activations (events (spin_up_cluster P self dry_run raw_output w)) = []"
  by (simp add: spin_up_cluster_def Let_def events_seq events_bind activations_pass
        base_commands_def split: sum.splits)

lemma activations_create_cluster:
  "activations (events (create_cluster P self node_count node_size region dry_run raw_output w)) = []"
  by (simp add: create_cluster_def Let_def events_seq events_bind activations_pass
        activations_spin_up base_commands_def split: sum.splits)

lemma activations_delete_cluster:
  "activations (events (delete_cluster P self dry_run raw_output w)) = []"
  by (simp add: delete_cluster_def yes_arg_def Let_def events_seq events_bind activations_pass
        base_commands_def split: sum.splits)

lemma activations_upload_images:
  "activations (events (upload_images P self local_images_directory s3_origin w)) = []"
  by (simp add: upload_images_def activate_queue_maker_def events_seq events_bind result_bind
        world_bind activations_pass activations_activate base_commands_def split: sum.splits)

lemma activations_transform:
  "activations (events (transform P self num_workers w)) = []"
  by (simp add: transform_def activate_poll_def Let_def events_seq events_bind activations_pass
        activations_activate base_commands_def split: sum.splits)

lemma activations_get_progress:
  "activations (events (get_progress P w)) = []"
  by (simp add: get_progress_def Let_def events_bind activations_pass base_commands_def
        split: sum.splits list.splits option.splits)

lemma activations_progress_loop:
  "activations (events (progress_loop P delay n k w)) = []"
proof (induction n arbitrary: k w)
  case 0
  then show ?case by simp
next
  case (Suc n)
  then show ?case
    by (simp add: events_bind events_seq activations_get_progress sleep_def activations_Cons
          is_base_def split: sum.splits)
qed

lemma activations_progress:
  "activations (events (progress P self delay total_count w)) = []"
  by (simp add: progress_def activations_progress_loop)

lemma activations_ListObjects [simp]: "activations (log @ [ListObjects kw]) = activations log"
  by (simp add: activations_Cons is_base_def)

lemma list_loop_activations:
  assumes "list_loop P kw acc w log = Some r"
  shows "activations (events r) = activations log"
proof -
  have "activations (events r) = activations (snd ((((P, kw), acc), w), log))"
  proof (rule list_loop.raw_induct
           [where Pa = "\<lambda>x y. activations (events y) = activations (snd x)", OF _ assms],
         goal_cases)
    case (1 f P kw acc w log y)
    then show ?case
      by (auto simp: events_def activations_Cons is_base_def
            split: prod.splits sum.splits option.splits)
  qed
  then show ?thesis by simp
qed

lemma activations_download:
  assumes "download_augmented_images P self w = Some r"
  shows "activations (events r) = []"
  using assms list_loop_activations [of P _ "[]" w "[]"]
  by (auto simp: download_augmented_images_def download_augmented_images_pointers_def events_def
        activations_Cons is_base_def split: option.splits sum.splits prod.splits)

text \<open>
  Claim C4. In every construction the base stages that are activated are the first
  stages of the order secret, secret-store, redis-service, redis-master, each once and
  in that order (a failure ends the sequence, it does not skip a stage); and if any is
  activated, the events before it hold a readiness probe whose output said \<open>Ready\<close> for
  the cluster of the prefix, with no activation before that probe. The other public
  operations activate no base stage, so this is so in every execution.
\<close>

theorem base_stages_in_order_after_ready:
  "prefix (activations (events (init P pfx v w))) base_commands
   \<and> (activations (events (init P pfx v w)) \<noteq> [] \<longrightarrow>
        (\<exists>pre out err post.
           events (init P pfx v w) = pre @ Shell ''kops validate cluster'' out err # post
           \<and> activations pre = [] \<and> says_ready P pfx out))
   \<and> activations (events (create_image_buckets P self w)) = []
   \<and> activations (events (validate_cluster P self w)) = []
   \<and> activations (events (create_cluster P self node_count node_size region dry_run raw_output w)) = []
   \<and> activations (events (delete_cluster P self dry_run raw_output w)) = []
   \<and> activations (events (upload_images P self local_images_directory s3_origin w)) = []
   \<and> activations (events (transform P self num_workers w)) = []
   \<and> activations (events (progress P self delay total_count w)) = []
   \<and> (case download_augmented_images P self w of
         None \<Rightarrow> True
       | Some r \<Rightarrow> activations (events r) = [])"
proof -
  let ?Q = "\<lambda>e. \<not> is_base e"
  let ?self = "\<lparr>cluster_name = pfx @ ''.k8s.local'',
                kops_state_store_name = pfx @ ''-kops-state-store'',
                original_images_bucket = pfx @ ''-original-images-bucket'',
                augmented_images_bucket = pfx @ ''-augmented-images-bucket'',
                verbose = v\<rparr>"
  let ?rest = "bind (cluster_ready P ?self) (\<lambda>ready.
                seq (if ready
                     then seq (vprint ?self (CR # ''Cluster appears to be ready''))
                         (seq (configure_base_cluster P ?self)
                              (activate_base_components P ?self))
                     else print not_ready_notice)
                  (ret ?self))"
  let ?t6 = "seq (check_environmental_variables P ?self) ?rest"
  let ?t5 = "seq (create_image_buckets P ?self) ?t6"
  let ?t4 = "\<lambda>found. seq (if \<not> found then create_cluster_state_store P ?self else ret ()) ?t5"
  let ?t3 = "bind (bucket_exists P ?self (kops_state_store_name ?self)) ?t4"
  let ?t2 = "bind (package_message_non_zero P ?self ''aws'' '' help'')
               (\<lambda>found. if \<not> found then raise (AssertionError awscli_missing) else ?t3)"
  let ?t1 = "bind (package_message_non_zero P ?self ''kubectl'' '' -h'')
               (\<lambda>found. if \<not> found then raise (AssertionError kubectl_missing) else ?t2)"
  have k: "all_events ?Q (package_message_non_zero P ?self ''kubectl'' '' -h'')"
    by (rule all_package) (simp_all add: is_base_def base_commands_def)
  have a: "all_events ?Q (package_message_non_zero P ?self ''aws'' '' help'')"
    by (rule all_package) (simp_all add: is_base_def base_commands_def)
  have b: "all_events ?Q (bucket_exists P ?self (kops_state_store_name ?self))"
    by (rule all_bucket_exists) (simp_all add: is_base_def)
  have s: "all_events ?Q (create_cluster_state_store P ?self)"
    by (rule all_create_store) (simp_all add: is_base_def)
  have i: "all_events ?Q (create_image_buckets P ?self)"
    by (rule all_create_image_buckets) (simp_all add: is_base_def)
  have c: "all_events ?Q (check_environmental_variables P ?self)"
    by (rule all_check) (simp_all add: is_base_def)
  have r: "staged_prog P pfx ?rest"
    by (rule staged_from_probe) simp
  have p6: "staged_prog P pfx ?t6"
    by (rule staged_prog_seq [OF c r])
  have p5: "staged_prog P pfx ?t5"
    by (rule staged_prog_seq [OF i p6])
  have p4: "staged_prog P pfx (?t4 found)" for found
    by (rule staged_prog_seq [OF all_if [OF s all_ret] p5])
  have p3: "staged_prog P pfx ?t3"
    by (rule staged_prog_bind [OF b p4])
  have p2: "staged_prog P pfx ?t2"
    by (rule staged_prog_bind [OF a staged_prog_if [OF staged_prog_quiet [OF all_raise] p3]])
  have p1: "staged_prog P pfx ?t1"
    by (rule staged_prog_bind [OF k staged_prog_if [OF staged_prog_quiet [OF all_raise] p2]])
  have eq: "init P pfx v = ?t1"
    unfolding init_def Let_def by (rule refl)
  have "staged_prog P pfx (init P pfx v)"
    unfolding eq by (rule p1)
  then have "staged P pfx (events (init P pfx v w))"
    by (simp add: staged_prog_def)
  moreover have "case download_augmented_images P self w of
                   None \<Rightarrow> True
                 | Some r \<Rightarrow> activations (events r) = []"
    by (simp add: activations_download split: option.splits)
  ultimately show ?thesis
    by (simp add: staged_def activations_create_image_buckets activations_validate_cluster
          activations_create_cluster activations_delete_cluster activations_upload_images
          activations_transform activations_progress)
qed

lemma sample_init_activations:
  "activations (events (init (sample demo_env ready_tools False no_pages) ''demo'' False []))
     = base_commands"
  by (simp add: sample_init_run events_def activations_Cons is_base_def base_commands_def)

theorem base_stages_in_order_after_ready_witness:
  "activations (events (init (sample demo_env ready_tools False no_pages) ''demo'' False []))
     = [''kubectl create -f secret.yaml'', ''kubectl create -f secret_store.yaml'',
        ''kubectl create -f redis_service.yaml'', ''kubectl create -f redis_master.yaml'']
   \<and> (\<exists>pre out err post.
        events (init (sample demo_env ready_tools False no_pages) ''demo'' False [])
          = pre @ Shell ''kops validate cluster'' out err # post
        \<and> activations pre = []
        \<and> says_ready (sample demo_env ready_tools False no_pages) ''demo'' out)"
  using base_stages_in_order_after_ready [of "sample demo_env ready_tools False no_pages"
          "''demo''" False "[]"]
  by (simp add: sample_init_activations) (simp add: base_commands_def)
section \<open>Provisioning\<close>

lemma creations_Nil [simp]: "creations [] = []"
  by (simp add: creations_def)

lemma creations_append [simp]: "creations (a @ b) = creations a @ creations b"
  by (simp add: creations_def)

lemma answers_Nil [simp]: "answers [] = []"
  by (simp add: answers_def map_filter_simps)

lemma answers_append [simp]: "answers (a @ b) = answers a @ answers b"
  by (simp add: answers_def map_filter_def)

lemma silent_events: "\<forall>e\<in>set evs. silent e \<Longrightarrow> creations evs = [] \<and> answers evs = []"
  by (induction evs)
     (auto simp: creations_def answers_def silent_def is_create_def map_filter_simps
        split: event.splits)

lemma silent_run:
  assumes "all_events silent m"
  shows "creations (events (m w)) = []" and "answers (events (m w)) = []"
  using assms silent_events [of "events (m w)"] by (simp_all add: all_events_def)

lemma is_create_request: "is_create (Run (split_ws (create_bucket_command b)))"
  by (simp add: is_create_def split_ws_def create_bucket_command_def isspace_def)

lemma versioning_is_no_creation: "\<not> is_create (Run (split_ws (apply_versioning_command b)))"
  by (simp add: is_create_def split_ws_def apply_versioning_command_def isspace_def)

lemma due_Nil [simp]: "due [] bs = []" "due rs [] = []"
  by (simp_all add: due_def requests_for_def)

lemma due_Cons:
  "due (r # rs) (b # bs)
     = (if check_false r b then [Run (split_ws (create_bucket_command b))] else []) @ due rs bs"
  by (simp add: due_def requests_for_def)

lemma result_bucket_exists:
  "result (bucket_exists P self b w) = map_sum id (\<lambda>names. b \<in> set names) (fst (buckets_all P w))"
  by (simp add: bucket_exists_def result_seq result_bind split: sum.splits)

lemma world_bucket_exists:
  "world (bucket_exists P self b w) = snd (buckets_all P w)"
  by (simp add: bucket_exists_def world_seq world_bind split: sum.splits)

lemma creations_bucket_exists [simp]: "creations (events (bucket_exists P self b w)) = []"
  by (simp add: bucket_exists_def events_seq events_bind events_vprint creations_def is_create_def
        split: sum.splits)

lemma answers_bucket_exists [simp]:
  "answers (events (bucket_exists P self b w)) = [fst (buckets_all P w)]"
  by (simp add: bucket_exists_def events_seq events_bind events_vprint answers_def map_filter_simps
        split: sum.splits)

lemma creations_create_bucket [simp]:
  "creations (events (create_bucket P b w)) = [Run (split_ws (create_bucket_command b))]"
  by (simp add: create_bucket_def Let_def creations_def is_create_request)

lemma answers_create_bucket [simp]: "answers (events (create_bucket P b w)) = []"
  by (simp add: create_bucket_def Let_def answers_def map_filter_simps)

lemma creations_Cons:
  "creations (e # es) = (if is_create e then [e] else []) @ creations es"
  by (simp add: creations_def)

lemma is_create_Stdout [simp]: "\<not> is_create (Stdout s)"
  by (simp add: is_create_def)

lemma creations_create_store [simp]:
  "creations (events (create_cluster_state_store P self w))
     = [Run (split_ws (create_bucket_command (kops_state_store_name self)))]"
  by (simp add: create_cluster_state_store_def Let_def events_seq events_vprint creations_Cons
        versioning_is_no_creation split: sum.splits)

lemma answers_create_store [simp]: "answers (events (create_cluster_state_store P self w)) = []"
  by (simp add: create_cluster_state_store_def Let_def events_seq events_vprint answers_def
        map_filter_simps create_bucket_def split: sum.splits)

text \<open>
  The step \<open>if not self._bucket_exists(b): create\<close>, followed by a method that accounts
  for the buckets checked after \<open>b\<close>, accounts for \<open>b\<close> and these.
\<close>

lemma accounted_step:
  assumes c: "\<And>w. creations (events (create w)) = [Run (split_ws (create_bucket_command b))]"
    and a: "\<And>w. answers (events (create w)) = []"
    and n: "accounted bs n"
  shows "accounted (b # bs)
           (bind (bucket_exists P self b) (\<lambda>found. seq (if \<not> found then create else ret ()) n))"
  unfolding accounted_def
proof
  fix w
  let ?m = "bind (bucket_exists P self b) (\<lambda>found. seq (if \<not> found then create else ret ()) n)"
  from n have n': "creations (events (n u)) = due (answers (events (n u))) bs"
    and l: "result (n u) = Inr x \<Longrightarrow> length (answers (events (n u))) = length bs" for u x
    by (simp_all add: accounted_def)
  show "creations (events (?m w)) = due (answers (events (?m w))) (b # bs)
        \<and> (\<forall>x. result (?m w) = Inr x \<longrightarrow> length (answers (events (?m w))) = length (b # bs))"
  proof (cases "fst (buckets_all P w)")
    case (Inl e)
    then show ?thesis
      by (simp add: events_bind result_bind result_bucket_exists due_Cons check_false_def)
  next
    case (Inr names)
    then show ?thesis
      by (auto simp: events_bind events_seq result_bind result_seq result_bucket_exists
            world_bucket_exists due_Cons check_false_def c a n' l split: sum.splits)
  qed
qed

lemma seq_ret: "seq m (ret ()) = m"
  by (rule ext) (simp add: seq_def bind_def ret_def split: prod.splits sum.splits)

lemma accounted_ret: "accounted [] (ret x)"
  by (simp add: accounted_def)

lemma accounted_last:
  assumes "\<And>w. creations (events (create w)) = [Run (split_ws (create_bucket_command b))]"
    and "\<And>w. answers (events (create w)) = []"
  shows "accounted [b]
           (bind (bucket_exists P self b) (\<lambda>found. if \<not> found then create else ret ()))"
  using accounted_step [OF assms accounted_ret [of "()"], of P self]
  by (simp add: seq_ret)

lemma accounted_create_image_buckets:
  "accounted [original_images_bucket self, augmented_images_bucket self]
     (create_image_buckets P self)"
  unfolding create_image_buckets_def
  by (intro accounted_step accounted_last creations_create_bucket answers_create_bucket)

text \<open>Silent methods before and after.\<close>

lemma accounted_after:
  assumes "all_events silent m" and "\<And>x. accounted bs (f x)"
  shows "accounted bs (bind m f)"
  using assms
  by (simp add: accounted_def events_bind result_bind silent_run split: sum.splits)

lemma accounted_before:
  assumes "accounted bs m" and "all_events silent n"
  shows "accounted bs (seq m n)"
  using assms
  by (simp add: accounted_def events_seq result_seq silent_run split: sum.splits)

lemma accounted_if: "accounted bs m \<Longrightarrow> accounted bs n \<Longrightarrow> accounted bs (if c then m else n)"
  by simp

lemma accounted_raise: "accounted bs (raise e)"
  by (simp add: accounted_def)

lemma accounted_init:
  "accounted [pfx @ ''-kops-state-store'', pfx @ ''-original-images-bucket'',
              pfx @ ''-augmented-images-bucket'']
     (init P pfx v)"
proof -
  let ?self = "\<lparr>cluster_name = pfx @ ''.k8s.local'',
                kops_state_store_name = pfx @ ''-kops-state-store'',
                original_images_bucket = pfx @ ''-original-images-bucket'',
                augmented_images_bucket = pfx @ ''-augmented-images-bucket'',
                verbose = v\<rparr>"
  let ?bs = "[pfx @ ''-original-images-bucket'', pfx @ ''-augmented-images-bucket'']"
  let ?rest = "bind (cluster_ready P ?self) (\<lambda>ready.
                seq (if ready
                     then seq (vprint ?self (CR # ''Cluster appears to be ready''))
                         (seq (configure_base_cluster P ?self)
                              (activate_base_components P ?self))
                     else print not_ready_notice)
                  (ret ?self))"
  let ?t6 = "seq (check_environmental_variables P ?self) ?rest"
  let ?t5 = "seq (create_image_buckets P ?self) ?t6"
  let ?t4 = "\<lambda>found. seq (if \<not> found then create_cluster_state_store P ?self else ret ()) ?t5"
  let ?t3 = "bind (bucket_exists P ?self (kops_state_store_name ?self)) ?t4"
  let ?t2 = "bind (package_message_non_zero P ?self ''aws'' '' help'')
               (\<lambda>found. if \<not> found then raise (AssertionError awscli_missing) else ?t3)"
  let ?t1 = "bind (package_message_non_zero P ?self ''kubectl'' '' -h'')
               (\<lambda>found. if \<not> found then raise (AssertionError kubectl_missing) else ?t2)"
  have k: "all_events silent (package_message_non_zero P ?self ''kubectl'' '' -h'')"
    by (rule all_package) (simp_all add: silent_def)
  have a: "all_events silent (package_message_non_zero P ?self ''aws'' '' help'')"
    by (rule all_package) (simp_all add: silent_def)
  have t6: "all_events silent ?t6"
    by (intro all_bind all_seq all_if all_ret all_check all_cluster_ready all_vprint all_print
          all_configure all_activate_base)
       (simp_all add: silent_def)
  have i: "accounted ?bs (create_image_buckets P ?self)"
    using accounted_create_image_buckets [of ?self P] by simp
  have t5: "accounted ?bs ?t5"
    by (rule accounted_before [OF i t6])
  have t3: "accounted (kops_state_store_name ?self # ?bs) ?t3"
    by (rule accounted_step [OF creations_create_store answers_create_store t5])
  then have t3': "accounted ((pfx @ ''-kops-state-store'') # ?bs) ?t3"
    by simp
  have t2: "accounted ((pfx @ ''-kops-state-store'') # ?bs) ?t2"
    by (rule accounted_after [OF a accounted_if [OF accounted_raise t3']])
  have t1: "accounted ((pfx @ ''-kops-state-store'') # ?bs) ?t1"
    by (rule accounted_after [OF k accounted_if [OF accounted_raise t2]])
  have eq: "init P pfx v = ?t1"
    unfolding init_def Let_def by (rule refl)
  show ?thesis
    unfolding eq by (rule t1)
qed
lemma keeps_ret: "keeps bk (ret x)"
  by (simp add: keeps_def)

lemma keeps_raise: "keeps bk (raise e)"
  by (simp add: keeps_def)

lemma keeps_emit: "keeps bk (emit ev)"
  by (simp add: keeps_def)

lemma keeps_vprint: "keeps bk (vprint self s)"
  by (simp add: keeps_def)

lemma keeps_print: "keeps bk (print s)"
  by (simp add: keeps_def)

lemma keeps_bind: "keeps bk m \<Longrightarrow> (\<And>x. keeps bk (f x)) \<Longrightarrow> keeps bk (bind m f)"
  by (simp add: keeps_def world_bind split: sum.splits)

lemma keeps_seq: "keeps bk m \<Longrightarrow> keeps bk n \<Longrightarrow> keeps bk (seq m n)"
  by (simp add: seq_def keeps_bind)

lemma keeps_if: "keeps bk m \<Longrightarrow> keeps bk n \<Longrightarrow> keeps bk (if c then m else n)"
  by simp

lemma keeps_pass:
  assumes "store P bk names" and "c \<in> set constructor_commands"
  shows "keeps bk (pass_command_to_shell P c)"
  using assms by (simp add: keeps_def world_pass store_def)

lemma keeps_yaml:
  assumes "store P bk names"
  shows "keeps bk (yaml P c)"
  using assms by (simp add: keeps_def yaml_def store_def)

lemma keeps_os_environ: "keeps bk (os_environ P key)"
  unfolding os_environ_def
  by (cases "environ P key") (auto intro!: keeps_seq keeps_emit keeps_raise keeps_ret)

lemma keeps_check: "keeps bk (check_environmental_variables P self)"
  unfolding check_environmental_variables_def Let_def
  by (intro keeps_seq keeps_bind keeps_if keeps_vprint keeps_raise keeps_os_environ)

lemma keeps_package:
  assumes "store P bk names" and "package @ arguments \<in> set constructor_commands"
  shows "keeps bk (package_message_non_zero P self package arguments)"
  unfolding package_message_non_zero_def Let_def
  by (intro keeps_seq keeps_bind keeps_vprint keeps_ret keeps_pass [OF assms])

lemma keeps_cluster_ready:
  assumes "store P bk names"
  shows "keeps bk (cluster_ready P self)"
  unfolding cluster_ready_def Let_def
  by (intro keeps_seq keeps_bind keeps_vprint keeps_ret keeps_pass [OF assms])
     (simp add: constructor_commands_def)

lemma keeps_configure:
  assumes "store P bk names"
  shows "keeps bk (configure_base_cluster P self)"
  unfolding configure_base_cluster_def
  by (intro keeps_seq keeps_yaml [OF assms])

lemma keeps_activate:
  assumes "store P bk names" and "c \<in> set constructor_commands"
  shows "keeps bk (activate P self notice c)"
  unfolding activate_def
  by (intro keeps_seq keeps_bind keeps_vprint keeps_ret keeps_pass [OF assms])

lemma keeps_activate_base:
  assumes "store P bk names"
  shows "keeps bk (activate_base_components P self)"
  unfolding activate_base_components_def activate_secret_def activate_secret_store_def
    activate_redis_service_def activate_redis_master_def
  by (intro keeps_seq keeps_vprint keeps_activate [OF assms])
     (simp_all add: constructor_commands_def base_commands_def)

text \<open>On a store, the existence check answers whether the store holds the bucket.\<close>

lemma store_bucket_exists:
  assumes "store P bk names"
  shows "result (bucket_exists P self b w) = Inr (b \<in> bk w)"
    and "bk (world (bucket_exists P self b w)) = bk w"
proof -
  from assms have l: "case fst (buckets_all P w) of Inl e \<Rightarrow> False | Inr listing \<Rightarrow> set listing = bk w"
    and k: "bk (snd (buckets_all P w)) = bk w"
    by (simp_all add: store_def)
  from l show "result (bucket_exists P self b w) = Inr (b \<in> bk w)"
    by (cases "fst (buckets_all P w)") (simp_all add: result_bucket_exists)
  from k show "bk (world (bucket_exists P self b w)) = bk w"
    by (simp add: world_bucket_exists)
qed

lemma store_create_bucket:
  assumes "store P bk names" and "b \<in> names"
  shows "result (create_bucket P b w) = Inr ()"
    and "bk (world (create_bucket P b w)) = insert b (bk w)"
  using assms by (simp_all add: create_bucket_def Let_def store_def)

lemma store_create_store:
  assumes "store P bk names" and "kops_state_store_name self \<in> names"
  shows "result (create_cluster_state_store P self w) = Inr ()"
    and "bk (world (create_cluster_state_store P self w)) = insert (kops_state_store_name self) (bk w)"
proof -
  note c = store_create_bucket [OF assms]
  from assms
  have r: "fst (subprocess_run P (split_ws (apply_versioning_command (kops_state_store_name self))) u)
             = Inr ()"
    and k: "bk (snd (subprocess_run P (split_ws (apply_versioning_command (kops_state_store_name self))) u))
             = bk u" for u
    by (simp_all add: store_def)
  show "result (create_cluster_state_store P self w) = Inr ()"
    by (simp add: create_cluster_state_store_def Let_def result_seq c r)
  show "bk (world (create_cluster_state_store P self w)) = insert (kops_state_store_name self) (bk w)"
    by (simp add: create_cluster_state_store_def Let_def world_seq result_seq c r k)
qed

lemma provisions_always:
  assumes "\<And>w. creations (events (m w)) = requests_for (filter (\<lambda>b. b \<notin> bk w) bs)"
    and "\<And>w. bk (world (m w)) = bk w \<union> set bs"
  shows "provisions bk bs m"
  using assms by (simp add: provisions_def)

text \<open>The step \<open>if not self._bucket_exists(b): create\<close> on a store.\<close>

lemma store_step:
  assumes s: "store P bk names"
    and c: "\<forall>w. creations (events (create w)) = [Run (split_ws (create_bucket_command b))]"
    and r: "\<forall>w. result (create w) = Inr ()"
    and k: "\<forall>w. bk (world (create w)) = insert b (bk w)"
    and n: "\<forall>w. creations (events (n w)) = requests_for (filter (\<lambda>b. b \<notin> bk w) bs)"
    and nk: "\<forall>w. bk (world (n w)) = bk w \<union> set bs"
    and d: "b \<notin> set bs"
  shows "provisions bk (b # bs)
           (bind (bucket_exists P self b) (\<lambda>found. seq (if \<not> found then create else ret ()) n))"
proof (rule provisions_always)
  fix w
  note e = store_bucket_exists [OF s]
  have f: "filter (\<lambda>x. x \<noteq> b \<and> x \<notin> A) bs = filter (\<lambda>x. x \<notin> A) bs" for A
    using d by (induction bs) auto
  show "creations (events (bind (bucket_exists P self b)
           (\<lambda>found. seq (if \<not> found then create else ret ()) n) w))
           = requests_for (filter (\<lambda>b. b \<notin> bk w) (b # bs))"
    by (simp add: events_bind events_seq e c r k n f requests_for_def)
  show "bk (world (bind (bucket_exists P self b)
           (\<lambda>found. seq (if \<not> found then create else ret ()) n) w))
           = bk w \<union> set (b # bs)"
    by (auto simp: world_bind world_seq e r k nk)
qed

lemma store_image_buckets:
  assumes s: "store P bk names"
    and o: "original_images_bucket self \<in> names" and a: "augmented_images_bucket self \<in> names"
    and d: "original_images_bucket self \<noteq> augmented_images_bucket self"
  shows "creations (events (create_image_buckets P self w))
           = requests_for (filter (\<lambda>b. b \<notin> bk w)
               [original_images_bucket self, augmented_images_bucket self])"
    and "result (create_image_buckets P self w) = Inr ()"
    and "bk (world (create_image_buckets P self w))
           = bk w \<union> {original_images_bucket self, augmented_images_bucket self}"
proof -
  note e = store_bucket_exists [OF s]
  note co = store_create_bucket [OF s o]
  note ca = store_create_bucket [OF s a]
  show "creations (events (create_image_buckets P self w))
           = requests_for (filter (\<lambda>b. b \<notin> bk w)
               [original_images_bucket self, augmented_images_bucket self])"
    using d
    by (simp add: create_image_buckets_def events_bind events_seq world_bind world_seq result_bind
          result_seq e co ca requests_for_def)
  show "result (create_image_buckets P self w) = Inr ()"
    by (simp add: create_image_buckets_def result_bind result_seq e co ca)
  show "bk (world (create_image_buckets P self w))
           = bk w \<union> {original_images_bucket self, augmented_images_bucket self}"
    by (auto simp: create_image_buckets_def world_bind world_seq result_bind result_seq e co ca)
qed

text \<open>Calling \<open>create_image_buckets\<close> twice in sequence on a store.\<close>

lemma store_image_buckets_twice:
  assumes s: "store P bk names"
    and o: "original_images_bucket self \<in> names" and a: "augmented_images_bucket self \<in> names"
    and d: "original_images_bucket self \<noteq> augmented_images_bucket self"
  shows "creations (events (seq (create_image_buckets P self) (create_image_buckets P self) w))
           = requests_for (filter (\<lambda>b. b \<notin> bk w)
               [original_images_bucket self, augmented_images_bucket self])"
proof -
  note i = store_image_buckets [OF s o a d]
  have "creations (events (create_image_buckets P self (world (create_image_buckets P self w)))) = []"
    by (simp add: i requests_for_def)
  then show ?thesis
    by (simp add: events_seq i(1,2))
qed
text \<open>The constructor on a store.\<close>

lemma provisions_guard:
  assumes q: "all_events silent m" and k: "keeps bk m" and n: "provisions bk bs n"
  shows "provisions bk bs (bind m (\<lambda>found. if \<not> found then raise e else n))"
  unfolding provisions_def
proof
  fix w
  let ?b = "bind m (\<lambda>found. if \<not> found then raise e else n)"
  let ?R = "\<lambda>w. requests_for (filter (\<lambda>b. b \<notin> bk w) bs)"
  from k have kw: "bk (world (m w)) = bk w"
    by (simp add: keeps_def)
  from n have n1: "creations (events (n (world (m w)))) = []
                   \<or> creations (events (n (world (m w)))) = ?R w"
    and n2: "result (n (world (m w))) = Inr a \<Longrightarrow>
               creations (events (n (world (m w)))) = ?R w
               \<and> bk (world (n (world (m w)))) = bk w \<union> set bs" for a
    unfolding provisions_def kw [symmetric] by blast+
  show "(creations (events (?b w)) = [] \<or> creations (events (?b w)) = ?R w)
        \<and> (\<forall>a. result (?b w) = Inr a \<longrightarrow>
               creations (events (?b w)) = ?R w \<and> bk (world (?b w)) = bk w \<union> set bs)"
  proof (cases "result (m w)")
    case (Inl x)
    then show ?thesis
      by (simp add: events_bind result_bind silent_run [OF q])
  next
    case (Inr found)
    show ?thesis
    proof (cases found)
      case False
      with Inr show ?thesis
        by (simp add: events_bind result_bind silent_run [OF q])
    next
      case True
      with Inr n1 n2 show ?thesis
        by (simp add: events_bind result_bind world_bind silent_run [OF q])
    qed
  qed
qed

lemma creations_before_silent:
  "all_events silent n \<Longrightarrow> creations (events (seq m n w)) = creations (events (m w))"
  by (simp add: events_seq silent_run split: sum.splits)

lemma store_before_keeps:
  "keeps bk n \<Longrightarrow> result (m w) = Inr x \<Longrightarrow> bk (world (seq m n w)) = bk (world (m w))"
  by (simp add: world_seq keeps_def)

lemma store_init:
  assumes s: "store P bk {pfx @ ''-kops-state-store'', pfx @ ''-original-images-bucket'',
                          pfx @ ''-augmented-images-bucket''}"
  shows "provisions bk [pfx @ ''-kops-state-store'', pfx @ ''-original-images-bucket'',
                        pfx @ ''-augmented-images-bucket'']
           (init P pfx v)"
proof -
  let ?self = "\<lparr>cluster_name = pfx @ ''.k8s.local'',
                kops_state_store_name = pfx @ ''-kops-state-store'',
                original_images_bucket = pfx @ ''-original-images-bucket'',
                augmented_images_bucket = pfx @ ''-augmented-images-bucket'',
                verbose = v\<rparr>"
  let ?bs = "[pfx @ ''-original-images-bucket'', pfx @ ''-augmented-images-bucket'']"
  let ?rest = "bind (cluster_ready P ?self) (\<lambda>ready.
                seq (if ready
                     then seq (vprint ?self (CR # ''Cluster appears to be ready''))
                         (seq (configure_base_cluster P ?self)
                              (activate_base_components P ?self))
                     else print not_ready_notice)
                  (ret ?self))"
  let ?t6 = "seq (check_environmental_variables P ?self) ?rest"
  let ?t5 = "seq (create_image_buckets P ?self) ?t6"
  let ?t4 = "\<lambda>found. seq (if \<not> found then create_cluster_state_store P ?self else ret ()) ?t5"
  let ?t3 = "bind (bucket_exists P ?self (kops_state_store_name ?self)) ?t4"
  let ?t2 = "bind (package_message_non_zero P ?self ''aws'' '' help'')
               (\<lambda>found. if \<not> found then raise (AssertionError awscli_missing) else ?t3)"
  let ?t1 = "bind (package_message_non_zero P ?self ''kubectl'' '' -h'')
               (\<lambda>found. if \<not> found then raise (AssertionError kubectl_missing) else ?t2)"
  have k: "all_events silent (package_message_non_zero P ?self ''kubectl'' '' -h'')"
    by (rule all_package) (simp_all add: silent_def)
  have kk: "keeps bk (package_message_non_zero P ?self ''kubectl'' '' -h'')"
    by (rule keeps_package [OF s]) (simp add: constructor_commands_def)
  have a: "all_events silent (package_message_non_zero P ?self ''aws'' '' help'')"
    by (rule all_package) (simp_all add: silent_def)
  have ak: "keeps bk (package_message_non_zero P ?self ''aws'' '' help'')"
    by (rule keeps_package [OF s]) (simp add: constructor_commands_def)
  have t6: "all_events silent ?t6"
    by (intro all_bind all_seq all_if all_ret all_check all_cluster_ready all_vprint all_print
          all_configure all_activate_base)
       (simp_all add: silent_def)
  have t6k: "keeps bk ?t6"
    by (intro keeps_bind keeps_seq keeps_if keeps_ret keeps_check keeps_vprint keeps_print
          keeps_cluster_ready [OF s] keeps_configure [OF s] keeps_activate_base [OF s])
  have i: "\<forall>w. creations (events (create_image_buckets P ?self w))
             = requests_for (filter (\<lambda>b. b \<notin> bk w) ?bs)"
    and ir: "\<forall>w. result (create_image_buckets P ?self w) = Inr ()"
    and ik: "\<forall>w. bk (world (create_image_buckets P ?self w)) = bk w \<union> set ?bs"
    using store_image_buckets [OF s, of ?self] by simp_all
  have t5: "\<forall>w. creations (events (?t5 w)) = requests_for (filter (\<lambda>b. b \<notin> bk w) ?bs)"
    by (simp only: creations_before_silent [OF t6] i simp_thms)
  have t5k: "\<forall>w. bk (world (?t5 w)) = bk w \<union> set ?bs"
    by (simp only: store_before_keeps [OF t6k ir [rule_format]] ik simp_thms)
  have cs: "\<forall>w. creations (events (create_cluster_state_store P ?self w))
              = [Run (split_ws (create_bucket_command (kops_state_store_name ?self)))]"
    by (simp only: creations_create_store simp_thms)
  have c: "\<forall>w. result (create_cluster_state_store P ?self w) = Inr ()"
    and ck: "\<forall>w. bk (world (create_cluster_state_store P ?self w))
               = insert (kops_state_store_name ?self) (bk w)"
    using store_create_store [OF s, of ?self] by simp_all
  have d: "kops_state_store_name ?self \<notin> set ?bs"
    by simp
  have t3: "provisions bk (kops_state_store_name ?self # ?bs) ?t3"
    by (rule store_step
          [where create = "create_cluster_state_store P ?self" and n = ?t5
             and b = "kops_state_store_name ?self" and bs = ?bs,
           OF s cs c ck t5 t5k d])
  have sel: "kops_state_store_name ?self = pfx @ ''-kops-state-store''"
    by simp
  have t3': "provisions bk ((pfx @ ''-kops-state-store'') # ?bs) ?t3"
    by (rule subst [where P = "\<lambda>x. provisions bk (x # ?bs) ?t3", OF sel t3])
  have t2: "provisions bk ((pfx @ ''-kops-state-store'') # ?bs) ?t2"
    by (rule provisions_guard [OF a ak t3'])
  have t1: "provisions bk ((pfx @ ''-kops-state-store'') # ?bs) ?t1"
    by (rule provisions_guard [OF k kk t2])
  have eq: "init P pfx v = ?t1"
    unfolding init_def Let_def by (rule refl)
  show ?thesis
    unfolding eq by (rule t1)
qed

text \<open>Constructing twice in sequence on a store, the first construction returning.\<close>

lemma store_init_twice:
  assumes s: "store P bk {pfx @ ''-kops-state-store'', pfx @ ''-original-images-bucket'',
                          pfx @ ''-augmented-images-bucket''}"
    and r: "result (init P pfx v w) = Inr a"
  shows "creations (events (bind (init P pfx v) (\<lambda>first. init P pfx v2) w))
           = requests_for (filter (\<lambda>b. b \<notin> bk w)
               [pfx @ ''-kops-state-store'', pfx @ ''-original-images-bucket'',
                pfx @ ''-augmented-images-bucket''])"
proof -
  let ?bs = "[pfx @ ''-kops-state-store'', pfx @ ''-original-images-bucket'',
              pfx @ ''-augmented-images-bucket'']"
  from store_init [OF s, of v] r
  have f: "creations (events (init P pfx v w)) = requests_for (filter (\<lambda>b. b \<notin> bk w) ?bs)"
    and k: "bk (world (init P pfx v w)) = bk w \<union> set ?bs"
    unfolding provisions_def by blast+
  from store_init [OF s, of v2]
  have "creations (events (init P pfx v2 (world (init P pfx v w)))) = []
        \<or> creations (events (init P pfx v2 (world (init P pfx v w))))
            = requests_for (filter (\<lambda>b. b \<notin> bk (world (init P pfx v w))) ?bs)"
    unfolding provisions_def by blast
  then have "creations (events (init P pfx v2 (world (init P pfx v w)))) = []"
    by (auto simp: k requests_for_def)
  then show ?thesis
    by (simp add: events_bind r f)
qed
text \<open>The sample platform keeps a store, unless it is frozen.\<close>

lemma store_subset: "store P bk names \<Longrightarrow> names' \<subseteq> names \<Longrightarrow> store P bk names'"
  by (auto simp: store_def)

lemma sample_create_argv:
  "split_ws (create_bucket_command ''demo-kops-state-store'')
     = [''aws'', ''s3api'', ''create-bucket'', ''--bucket'', ''demo-kops-state-store'',
        ''--region'', ''us-east-1'']"
  "split_ws (create_bucket_command ''demo-original-images-bucket'')
     = [''aws'', ''s3api'', ''create-bucket'', ''--bucket'', ''demo-original-images-bucket'',
        ''--region'', ''us-east-1'']"
  "split_ws (create_bucket_command ''demo-augmented-images-bucket'')
     = [''aws'', ''s3api'', ''create-bucket'', ''--bucket'', ''demo-augmented-images-bucket'',
        ''--region'', ''us-east-1'']"
  by code_simp+

lemma sample_versioning_argv:
  "split_ws (apply_versioning_command ''demo-kops-state-store'')
     = [''aws'', ''s3api'', ''put-bucket-versioning'', ''--bucket'', ''demo-kops-state-store'',
        ''--versioning-configuration'', ''Status=Enabled'']"
  "split_ws (apply_versioning_command ''demo-original-images-bucket'')
     = [''aws'', ''s3api'', ''put-bucket-versioning'', ''--bucket'', ''demo-original-images-bucket'',
        ''--versioning-configuration'', ''Status=Enabled'']"
  "split_ws (apply_versioning_command ''demo-augmented-images-bucket'')
     = [''aws'', ''s3api'', ''put-bucket-versioning'', ''--bucket'', ''demo-augmented-images-bucket'',
        ''--versioning-configuration'', ''Status=Enabled'']"
  by code_simp+

lemma sample_store:
  "store (sample env tools False srv) set
     {''demo-kops-state-store'', ''demo-original-images-bucket'', ''demo-augmented-images-bucket''}"
  by (simp add: store_def sample_def sample_run_def sample_create_argv sample_versioning_argv)

text \<open>
  Claim C3, with the store it needs. In every run of \<open>create_image_buckets\<close> and of the
  constructor, on every platform, the creation requests are exactly the requests for
  the resources whose existence check returned false when it was made, and a run that
  returns has checked each of its resources: the two image buckets, and before them
  the state store in the constructor. On a platform that keeps a store of buckets,
  calling \<open>create_image_buckets\<close> twice in sequence, and constructing twice in sequence
  when the first construction returns, makes exactly one creation request for each
  resource that the store did not hold at first and none for a resource that it held.
\<close>

theorem provisioning_idempotent_on_store:
  "creations (events (create_image_buckets P self w))
     = due (answers (events (create_image_buckets P self w)))
         [original_images_bucket self, augmented_images_bucket self]
   \<and> (result (create_image_buckets P self w) = Inr ()
        \<longrightarrow> length (answers (events (create_image_buckets P self w))) = 2)
   \<and> creations (events (init P pfx v w))
       = due (answers (events (init P pfx v w)))
           [pfx @ ''-kops-state-store'', pfx @ ''-original-images-bucket'',
            pfx @ ''-augmented-images-bucket'']
   \<and> (result (init P pfx v w) = Inr a \<longrightarrow> length (answers (events (init P pfx v w))) = 3)
   \<and> (store P bk {original_images_bucket self, augmented_images_bucket self}
        \<and> original_images_bucket self \<noteq> augmented_images_bucket self
        \<longrightarrow> creations (events (seq (create_image_buckets P self) (create_image_buckets P self) w))
              = requests_for (filter (\<lambda>b. b \<notin> bk w)
                  [original_images_bucket self, augmented_images_bucket self]))
   \<and> (store P bk {pfx @ ''-kops-state-store'', pfx @ ''-original-images-bucket'',
                    pfx @ ''-augmented-images-bucket''}
        \<and> result (init P pfx v w) = Inr a
        \<longrightarrow> creations (events (bind (init P pfx v) (\<lambda>first. init P pfx v2) w))
              = requests_for (filter (\<lambda>b. b \<notin> bk w)
                  [pfx @ ''-kops-state-store'', pfx @ ''-original-images-bucket'',
                   pfx @ ''-augmented-images-bucket'']))"
proof -
  have 1: "creations (events (create_image_buckets P self w))
             = due (answers (events (create_image_buckets P self w)))
                 [original_images_bucket self, augmented_images_bucket self]"
    and 2: "result (create_image_buckets P self w) = Inr ()
             \<longrightarrow> length (answers (events (create_image_buckets P self w))) = 2"
    using accounted_create_image_buckets [of self P] by (simp_all add: accounted_def)
  have 3: "creations (events (init P pfx v w))
             = due (answers (events (init P pfx v w)))
                 [pfx @ ''-kops-state-store'', pfx @ ''-original-images-bucket'',
                  pfx @ ''-augmented-images-bucket'']"
    and 4: "result (init P pfx v w) = Inr a \<longrightarrow> length (answers (events (init P pfx v w))) = 3"
    using accounted_init [of pfx P v] by (simp_all add: accounted_def)
  have 5: "creations (events (seq (create_image_buckets P self) (create_image_buckets P self) w))
             = requests_for (filter (\<lambda>b. b \<notin> bk w)
                 [original_images_bucket self, augmented_images_bucket self])"
    if "store P bk {original_images_bucket self, augmented_images_bucket self}"
      and "original_images_bucket self \<noteq> augmented_images_bucket self"
    by (rule store_image_buckets_twice [OF that(1) _ _ that(2)]) simp_all
  have 6: "creations (events (bind (init P pfx v) (\<lambda>first. init P pfx v2) w))
             = requests_for (filter (\<lambda>b. b \<notin> bk w)
                 [pfx @ ''-kops-state-store'', pfx @ ''-original-images-bucket'',
                  pfx @ ''-augmented-images-bucket''])"
    if "store P bk {pfx @ ''-kops-state-store'', pfx @ ''-original-images-bucket'',
                    pfx @ ''-augmented-images-bucket''}"
      and "result (init P pfx v w) = Inr a"
    by (rule store_init_twice [OF that])
  from 1 2 3 4 5 6 show ?thesis
    by blast
qed

lemma sample_image_buckets_run:
  "create_image_buckets (sample demo_env ready_tools False no_pages) demo_self []
     = (Inr (),
        [''demo-augmented-images-bucket'', ''demo-original-images-bucket''],
        [BucketsAll (Inr []),
         Run [''aws'', ''s3api'', ''create-bucket'', ''--bucket'', ''demo-original-images-bucket'',
              ''--region'', ''us-east-1''],
         BucketsAll (Inr [''demo-original-images-bucket'']),
         Run [''aws'', ''s3api'', ''create-bucket'', ''--bucket'', ''demo-augmented-images-bucket'',
              ''--region'', ''us-east-1'']])"
  by code_simp

theorem provisioning_idempotent_on_store_witness:
  "result (create_image_buckets (sample demo_env ready_tools False no_pages) demo_self []) = Inr ()
   \<and> length (answers (events
        (create_image_buckets (sample demo_env ready_tools False no_pages) demo_self []))) = 2
   \<and> result (init (sample demo_env ready_tools False no_pages) ''demo'' False []) = Inr demo_self
   \<and> length (answers (events
        (init (sample demo_env ready_tools False no_pages) ''demo'' False []))) = 3
   \<and> store (sample demo_env ready_tools False no_pages) set
        {original_images_bucket demo_self, augmented_images_bucket demo_self}
   \<and> original_images_bucket demo_self \<noteq> augmented_images_bucket demo_self
   \<and> creations (events
        (seq (create_image_buckets (sample demo_env ready_tools False no_pages) demo_self)
             (create_image_buckets (sample demo_env ready_tools False no_pages) demo_self) []))
       = requests_for [''demo-original-images-bucket'', ''demo-augmented-images-bucket'']
   \<and> store (sample demo_env ready_tools False no_pages) set
        {''demo'' @ ''-kops-state-store'', ''demo'' @ ''-original-images-bucket'',
         ''demo'' @ ''-augmented-images-bucket''}
   \<and> creations (events
        (bind (init (sample demo_env ready_tools False no_pages) ''demo'' False)
           (\<lambda>first. init (sample demo_env ready_tools False no_pages) ''demo'' True) []))
       = requests_for [''demo-kops-state-store'', ''demo-original-images-bucket'',
                       ''demo-augmented-images-bucket'']"
proof -
  let ?S = "sample demo_env ready_tools False no_pages"
  have r: "result (create_image_buckets ?S demo_self []) = Inr ()"
    by (simp add: sample_image_buckets_run result_def)
  have i: "result (init ?S ''demo'' False []) = Inr demo_self"
    by (simp add: sample_init_run result_def)
  have s3: "store ?S set {''demo'' @ ''-kops-state-store'', ''demo'' @ ''-original-images-bucket'',
                         ''demo'' @ ''-augmented-images-bucket''}"
    using sample_store [of demo_env ready_tools no_pages] by simp
  have s2: "store ?S set {original_images_bucket demo_self, augmented_images_bucket demo_self}"
    by (rule store_subset [OF sample_store]) (simp add: demo_self_def)
  have d: "original_images_bucket demo_self \<noteq> augmented_images_bucket demo_self"
    by (simp add: demo_self_def)
  from provisioning_idempotent_on_store
         [of ?S demo_self "[]" "''demo''" False demo_self set True] r i s3 s2 d
  show ?thesis
    by (simp add: demo_self_def)
qed

text \<open>
  Without the store the second call repeats the request. The code does not look at
  what \<open>subprocess.run\<close> gave (the source notes \<open>TODO: confirm existence of state
  store\<close>), and \<open>aws s3api create-bucket\<close> fails without an exception, for a name that
  another account holds for instance. On the platform where creation has no effect,
  the image buckets are not there at first, and two calls of \<open>create_image_buckets\<close> in
  sequence request the creation of each of them twice.
\<close>

theorem unheeded_creation_is_repeated:
  "fst (buckets_all (sample demo_env ready_tools True no_pages) []) = Inr []
   \<and> creations (events
        (seq (create_image_buckets (sample demo_env ready_tools True no_pages) demo_self)
             (create_image_buckets (sample demo_env ready_tools True no_pages) demo_self) []))
       = [Run [''aws'', ''s3api'', ''create-bucket'', ''--bucket'', ''demo-original-images-bucket'',
               ''--region'', ''us-east-1''],
          Run [''aws'', ''s3api'', ''create-bucket'', ''--bucket'', ''demo-augmented-images-bucket'',
               ''--region'', ''us-east-1''],
          Run [''aws'', ''s3api'', ''create-bucket'', ''--bucket'', ''demo-original-images-bucket'',
               ''--region'', ''us-east-1''],
          Run [''aws'', ''s3api'', ''create-bucket'', ''--bucket'', ''demo-augmented-images-bucket'',
               ''--region'', ''us-east-1'']]"
  by code_simp

end
